theory Spec2Isabelle
  imports Complex_Main
begin

section \<open>The worker block dispatcher\<close>

text \<open>
  A shallow embedding of \<^verbatim>\<open>worker-block-dispatcher.ts\<close>. The dispatcher owns a pool of
  worker handles, a shutdown flag and the latest-buffered-height counter. Everything it
  does to its collaborators (the workers, the queue, the hooks of the base dispatcher,
  the logger, the event emitter and the process) is recorded as an event, in program
  order; everything its collaborators answer is read from an environment.

  JavaScript numbers are binary64. Heights, counts and thread identifiers are modelled
  as integers (\<^verbatim>\<open>NaN\<close> and fractions are left out); where the file computes with
  numbers (the product for the capacity of the queue, the product and the floor for the
  random place) the result is rounded as binary64 rounds it. A function with an
  \<^verbatim>\<open>await\<close> is run without interleaving; what other code does to the counter
  meanwhile shows as the state a later call or task is run in.
\<close>

subsection \<open>Numbers\<close>

text \<open>
  Rounding to the 53 significant bits of binary64, to nearest, ties to even, for a
  natural number \<open>p\<close>: \<open>unit53 p\<close> is the distance between neighbouring binary64 numbers
  at \<open>p\<close> (it is \<open>1\<close> below \<open>2 ^ 53\<close> and doubles with every further bit), and \<open>round53 p\<close>
  is the multiple of that unit nearest to \<open>p\<close>.
\<close>

fun unit53 :: "nat \<Rightarrow> nat" where
  "unit53 p = (if p < 2 ^ 53 then 1 else 2 * unit53 (p div 2))"

declare unit53.simps [simp del]

definition round53 :: "nat \<Rightarrow> nat" where
  "round53 p =
     (let q = unit53 p; d = p div q; r = p mod q
      in if 2 * r < q \<or> (2 * r = q \<and> even d) then d * q else (d + 1) * q)"

text \<open>
  The numbers that a product of integers can be: an integer, an infinity (reached from
  \<open>2 ^ 1024\<close> on) or \<^verbatim>\<open>NaN\<close>. \<open>binary64 x\<close> is the number that the exact integer result
  \<open>x\<close> of an operation is rounded to.
\<close>

datatype number = Finite int | PlusInfinity | MinusInfinity | NaN

definition binary64 :: "int \<Rightarrow> number" where
  "binary64 x =
     (let m = round53 (nat \<bar>x\<bar>)
      in if 2 ^ 1024 \<le> m then (if x < 0 then MinusInfinity else PlusInfinity)
         else Finite (if x < 0 then - int m else int m))"

fun signum :: "number \<Rightarrow> int" where
  "signum (Finite a) = sgn a"
| "signum PlusInfinity = 1"
| "signum MinusInfinity = - 1"
| "signum NaN = 0"

text \<open>The operator \<^verbatim>\<open>*\<close> on such numbers.\<close>

fun js_times :: "number \<Rightarrow> number \<Rightarrow> number" where
  "js_times NaN y = NaN"
| "js_times x NaN = NaN"
| "js_times (Finite a) (Finite b) = binary64 (a * b)"
| "js_times x y =
     (if signum x * signum y > 0 then PlusInfinity
      else if signum x * signum y < 0 then MinusInfinity
      else NaN)"

text \<open>
  A binary64 number of the interval \<open>[0, 1)\<close>, as \<^verbatim>\<open>Math.random()\<close> returns one: the
  number \<open>significand / 2 ^ scale\<close> with a significand below \<open>2 ^ 53\<close> and a scale from 53
  (the numbers from \<open>1/2\<close> on) to 1074 (the smallest ones).
\<close>

record fraction64 =
  significand :: nat
  scale :: nat

definition inUnitInterval :: "fraction64 \<Rightarrow> bool" where
  "inUnitInterval r = (significand r < 2 ^ 53 \<and> 53 \<le> scale r \<and> scale r \<le> 1074)"

definition valueOf :: "fraction64 \<Rightarrow> real" where
  "valueOf r = real (significand r) / 2 ^ scale r"

text \<open>
  \<^verbatim>\<open>Math.floor(r * n)\<close> for such an \<open>r\<close> and a length \<open>n\<close>: the exact product is
  \<open>significand * n / 2 ^ scale\<close>, its numerator is rounded to 53 bits, and the floor is the
  integer quotient.
\<close>

definition floorTimes :: "fraction64 \<Rightarrow> nat \<Rightarrow> nat" where
  "floorTimes r n = round53 (significand r * n) div 2 ^ scale r"

subsection \<open>Data\<close>

text \<open>An element of the batch: \<^verbatim>\<open>IBlock<B> | number\<close>.\<close>

datatype 'b item = Height int | Block 'b

text \<open>\<^verbatim>\<open>typeof h === 'number'\<close>\<close>

fun isNumber :: "'b item \<Rightarrow> bool" where
  "isNumber (Height n) = True"
| "isNumber (Block b) = False"

text \<open>The batch read as numbers (\<^verbatim>\<open>height as number\<close>), once every element is one.\<close>

fun numbers :: "'b item list \<Rightarrow> int list" where
  "numbers [] = []"
| "numbers (Height n # xs) = n # numbers xs"
| "numbers (Block b # xs) = numbers xs"

text \<open>The two fields of \<^verbatim>\<open>WorkerStatusResponse\<close> that this file reads.\<close>

record workerStatusResponse =
  threadId :: int
  toFetchBlocks :: int

text \<open>\<^verbatim>\<open>ProcessBlockResponse\<close>, as the task destructures and rebuilds it.\<close>

record 'hdr processBlockResponse =
  dynamicDsCreated :: bool
  reindexBlockHeader :: "'hdr option"

text \<open>
  Modelled from the spec: the class \<^verbatim>\<open>AutoQueue\<close> is imported from \<^verbatim>\<open>../../utils\<close>;
  of the bounded task queue only the four arguments it is constructed with are kept
  (capacity, processing concurrency, per-task timeout, name).
\<close>

record autoQueue =
  capacity :: number
  concurrency :: int
  taskTimeoutSec :: "int option"
  queueName :: "string option"

text \<open>The three assertions of the file, and the failures a call can end with.\<close>

datatype assertion =
    WorkersMustBePositive
  | OnlyNumbersSupported
  | WorkerNotFound int

datatype 'e failure =
    AssertionError assertion
  | TypeError
  | PromiseAllRejected "'e list"

text \<open>
  What \<^verbatim>\<open>processBlock\<close> closes over: \<^verbatim>\<open>height\<close>, \<^verbatim>\<open>workerIdx\<close>, \<^verbatim>\<open>worker\<close> and the
  fencing token \<^verbatim>\<open>bufferedHeight\<close>. (\<^verbatim>\<open>pendingBlock\<close> is the fetch of \<^verbatim>\<open>height\<close> on
  \<^verbatim>\<open>worker\<close>, whose outcome the environment gives.)
\<close>

record 'w task =
  height :: int
  workerIdx :: int
  worker :: 'w
  bufferedHeight :: int

datatype ('w, 'e, 'hdr) event =
    LogEnqueueing "int option" "int option" nat
  | LogDebugQueueReset
  | LogError int 'e
  | GetStatus 'w
  | FetchBlock 'w int
  | PreProcessBlock 'hdr
  | MonitorWrite int
  | WorkerProcessBlock 'w int
  | PostProcessBlock 'hdr "'hdr processBlockResponse"
  | QueuePut "'w task"
  | QueueAbort
  | Terminate 'w
  | EmitBlockQueueSize int
  | ProcessExit int

text \<open>The fields of the dispatcher (\<^verbatim>\<open>_latestBufferedHeight\<close> and \<^verbatim>\<open>queue\<close> are inherited).\<close>

record 'w dispatcher =
  workers :: "'w list"
  numWorkers :: int
  isShutdown :: bool
  latestBufferedHeight :: int
  queue :: autoQueue

text \<open>
  The collaborators' answers. A promise that rejects is \<open>Inl\<close> of its reason, a hook
  that throws is \<open>Some\<close> of what it throws. The two classifiers \<^verbatim>\<open>isTaskFlushedError\<close>
  and \<^verbatim>\<open>isBlockUnavailableError\<close> are imported, so they are parameters too, as is the
  inherited getter \<^verbatim>\<open>queueSize\<close>. \<open>mathRandom\<close> is what \<^verbatim>\<open>Math.random()\<close> returns.
\<close>

record ('w, 'e, 'hdr) env =
  getStatus :: "'w \<Rightarrow> 'e + workerStatusResponse"
  fetchBlock :: "'w \<Rightarrow> int \<Rightarrow> 'e + 'hdr"
  worker_processBlock :: "'w \<Rightarrow> int \<Rightarrow> 'e + 'hdr processBlockResponse"
  terminate :: "'w \<Rightarrow> 'e + int"
  preProcessBlock :: "'hdr \<Rightarrow> 'e option"
  postProcessBlock :: "'hdr \<Rightarrow> 'hdr processBlockResponse \<Rightarrow> 'e option"
  mathRandom :: fraction64
  isTaskFlushedError :: "'e \<Rightarrow> bool"
  isBlockUnavailableError :: "'e \<Rightarrow> bool"
  queueSize :: int

subsection \<open>Construction of the queue\<close>

text \<open>
  \<^verbatim>\<open>assert(workers && workers > 0, ...)\<close>: \<^verbatim>\<open>undefined\<close> and \<open>0\<close> are falsy, a negative
  number fails the comparison. The capacity is \<^verbatim>\<open>workers * batchSize * 2\<close>, two binary64
  products from the left.
\<close>

definition initAutoQueue ::
  "int option \<Rightarrow> int \<Rightarrow> int option \<Rightarrow> string option \<Rightarrow> 'e failure + autoQueue" where
  "initAutoQueue workers_opt batchSize timeout nm =
     (case workers_opt of
        None \<Rightarrow> Inl (AssertionError WorkersMustBePositive)
      | Some w \<Rightarrow>
          if w \<noteq> 0 \<and> w > 0
          then Inr \<lparr>capacity = js_times (js_times (Finite w) (Finite batchSize)) (Finite 2),
                    concurrency = 1,
                    taskTimeoutSec = timeout, queueName = nm\<rparr>
          else Inl (AssertionError WorkersMustBePositive))"

subsection \<open>The load balancer\<close>

text \<open>\<^verbatim>\<open>Math.min(...metric)\<close>; of no argument it is \<^verbatim>\<open>Infinity\<close>, here \<open>None\<close>.\<close>

fun math_min :: "int list \<Rightarrow> int option" where
  "math_min [] = None"
| "math_min (x # xs) = (case math_min xs of None \<Rightarrow> Some x | Some m \<Rightarrow> Some (min x m))"

text \<open>\<^verbatim>\<open>xs[i]\<close>: \<^verbatim>\<open>undefined\<close> (here \<open>None\<close>) outside the array.\<close>

definition at_index :: "'a list \<Rightarrow> int \<Rightarrow> 'a option" where
  "at_index xs i = (if 0 \<le> i \<and> nat i < length xs then Some (xs ! nat i) else None)"

text \<open>
  The reasons of the promises that rejected and the values of those that resolved, in
  the order of the array. \<^verbatim>\<open>Promise.all\<close> rejects as soon as one of its promises does,
  with that reason; which one is first is not decided here, so the failure carries all
  of them.
\<close>

fun rejections :: "('e + 'a) list \<Rightarrow> 'e list" where
  "rejections [] = []"
| "rejections (Inl e # xs) = e # rejections xs"
| "rejections (Inr v # xs) = rejections xs"

fun resolutions :: "('e + 'a) list \<Rightarrow> 'a list" where
  "resolutions [] = []"
| "resolutions (Inl e # xs) = resolutions xs"
| "resolutions (Inr v # xs) = v # resolutions xs"

definition getNextWorkerIndex ::
  "('w, 'e, 'hdr) env \<Rightarrow> 'w dispatcher \<Rightarrow> ('e failure + int) \<times> ('w, 'e, 'hdr) event list" where
  "getNextWorkerIndex env s =
     (let answers = map (getStatus env) (workers s);
          calls = map GetStatus (workers s)
      in if rejections answers \<noteq> [] then (Inl (PromiseAllRejected (rejections answers)), calls)
         else
           let statuses = resolutions answers;
               metric = map toFetchBlocks statuses;
               lowest = filter (\<lambda>st. Some (toFetchBlocks st) = math_min metric) statuses;
               randIndex = int (floorTimes (mathRandom env) (length lowest))
           in (case at_index lowest randIndex of
                 None \<Rightarrow> (Inl TypeError, calls)
               | Some st \<Rightarrow> (Inr (threadId st - 1), calls)))"

subsection \<open>Assigning one height\<close>

text \<open>
  \<^verbatim>\<open>enqueueBlock\<close> returns at once after shutdown; it fails its assertion when no worker
  stands at \<^verbatim>\<open>workerIdx\<close>; otherwise it starts the fetch and puts the task on the queue.
  The promise of \<^verbatim>\<open>put\<close> is not awaited (\<^verbatim>\<open>void\<close>).
\<close>

definition enqueueBlock ::
  "'w dispatcher \<Rightarrow> int \<Rightarrow> int \<Rightarrow> ('e failure + unit) \<times> ('w, 'e, 'hdr) event list" where
  "enqueueBlock s h idx =
     (if isShutdown s then (Inr (), [])
      else case at_index (workers s) idx of
             None \<Rightarrow> (Inl (AssertionError (WorkerNotFound idx)), [])
           | Some w \<Rightarrow>
               (Inr (), [FetchBlock w h,
                         QueuePut \<lparr>height = h, workerIdx = idx, worker = w,
                                   bufferedHeight = latestBufferedHeight s\<rparr>]))"

text \<open>
  The handler on the promise of \<^verbatim>\<open>put\<close>: a flushed task is swallowed (\<open>None\<close>), any
  other reason is thrown again.
\<close>

definition putCatch :: "('w, 'e, 'hdr) env \<Rightarrow> 'e \<Rightarrow> 'e option" where
  "putCatch env e = (if isTaskFlushedError env e then None else Some e)"

subsection \<open>The processing task\<close>

text \<open>
  The body of \<^verbatim>\<open>try\<close>: \<open>Inl e\<close> when \<open>e\<close> is thrown, with the events up to there. The
  fencing check compares the token taken at submission with the counter of the state the
  task runs in.
\<close>

definition tryBlock ::
  "('w, 'e, 'hdr) env \<Rightarrow> 'w dispatcher \<Rightarrow> 'w task \<Rightarrow> ('e + unit) \<times> ('w, 'e, 'hdr) event list" where
  "tryBlock env s t =
     (case fetchBlock env (worker t) (height t) of
        Inl e \<Rightarrow> (Inl e, [])
      | Inr header \<Rightarrow>
          if bufferedHeight t > latestBufferedHeight s then (Inr (), [LogDebugQueueReset])
          else
            (case preProcessBlock env header of
               Some e \<Rightarrow> (Inl e, [PreProcessBlock header])
             | None \<Rightarrow>
                 (case worker_processBlock env (worker t) (height t) of
                    Inl e \<Rightarrow>
                      (Inl e, [PreProcessBlock header, MonitorWrite (workerIdx t),
                               WorkerProcessBlock (worker t) (height t)])
                  | Inr r \<Rightarrow>
                      let resp = \<lparr>dynamicDsCreated = dynamicDsCreated r,
                                  reindexBlockHeader = reindexBlockHeader r\<rparr>;
                          tr = [PreProcessBlock header, MonitorWrite (workerIdx t),
                                WorkerProcessBlock (worker t) (height t),
                                PostProcessBlock header resp]
                      in (case postProcessBlock env header resp of
                            Some e \<Rightarrow> (Inl e, tr)
                          | None \<Rightarrow> (Inr (), tr)))))"

text \<open>How a task ends: its promise resolves, or the process is told to exit.\<close>

datatype outcome = Returned | Exited int

text \<open>
  The \<^verbatim>\<open>catch\<close> block. What is thrown is taken to be an error object, whose fields
  \<^verbatim>\<open>handler\<close> and \<^verbatim>\<open>stack\<close> only shape the logged message. \<^verbatim>\<open>process.exit(1)\<close> does
  not return: the task ends there.
\<close>

definition catchBlock ::
  "('w, 'e, 'hdr) env \<Rightarrow> int \<Rightarrow> 'e \<Rightarrow> outcome \<times> ('w, 'e, 'hdr) event list" where
  "catchBlock env h e =
     (if isTaskFlushedError env e then (Returned, [])
      else if isBlockUnavailableError env e then (Returned, [])
      else (Exited 1, [LogError h e, ProcessExit 1]))"

definition processBlock ::
  "('w, 'e, 'hdr) env \<Rightarrow> 'w dispatcher \<Rightarrow> 'w task \<Rightarrow> outcome \<times> ('w, 'e, 'hdr) event list" where
  "processBlock env s t =
     (case tryBlock env s t of
        (Inr u, tr) \<Rightarrow> (Returned, tr)
      | (Inl e, tr) \<Rightarrow> (case catchBlock env (height t) e of (out, tr') \<Rightarrow> (out, tr @ tr')))"

subsection \<open>Assigning a batch\<close>

text \<open>
  \<^verbatim>\<open>heights.map((height) => this.enqueueBlock(height, workerIdx))\<close>: the first call that
  throws ends the loop.
\<close>

fun enqueueEach ::
  "'w dispatcher \<Rightarrow> int list \<Rightarrow> int \<Rightarrow> ('e failure + unit) \<times> ('w, 'e, 'hdr) event list" where
  "enqueueEach s [] idx = (Inr (), [])"
| "enqueueEach s (h # hs) idx =
     (case enqueueBlock s h idx of
        (Inl f, tr) \<Rightarrow> (Inl f, tr)
      | (Inr u, tr) \<Rightarrow> (case enqueueEach s hs idx of (res, tr') \<Rightarrow> (res, tr @ tr')))"

text \<open>The setter of the counter: it stores the height and emits the size of the queue.\<close>

definition set_latestBufferedHeight ::
  "('w, 'e, 'hdr) env \<Rightarrow> 'w dispatcher \<Rightarrow> int \<Rightarrow> 'w dispatcher \<times> ('w, 'e, 'hdr) event list" where
  "set_latestBufferedHeight env s h =
     (s\<lparr>latestBufferedHeight := h\<rparr>, [EmitBlockQueueSize (queueSize env)])"

text \<open>\<^verbatim>\<open>last(heights)\<close> of lodash and \<^verbatim>\<open>heights[0]\<close>: \<^verbatim>\<open>undefined\<close> of the empty array.\<close>

definition last_opt :: "'a list \<Rightarrow> 'a option" where
  "last_opt xs = (if xs = [] then None else Some (last xs))"

definition first_opt :: "'a list \<Rightarrow> 'a option" where
  "first_opt xs = (case xs of [] \<Rightarrow> None | x # ys \<Rightarrow> Some x)"

text \<open>
  \<^verbatim>\<open>!!latestBufferHeight && !heights.length\<close>: the bypass is taken for an empty batch
  and a height that is given and is not \<open>0\<close>.
\<close>

definition bypass :: "'b item list \<Rightarrow> int option \<Rightarrow> int list" where
  "bypass heights latestBufferHeight =
     (case latestBufferHeight of
        None \<Rightarrow> numbers heights
      | Some k \<Rightarrow> if k \<noteq> 0 \<and> heights = [] then [k] else numbers heights)"

text \<open>
  \<^verbatim>\<open>latestBufferHeight ?? last(heights) ?? this.latestBufferedHeight\<close>: \<^verbatim>\<open>??\<close> passes
  over \<^verbatim>\<open>undefined\<close> only.
\<close>

definition nextBufferedHeight :: "'w dispatcher \<Rightarrow> int list \<Rightarrow> int option \<Rightarrow> int" where
  "nextBufferedHeight s hs latestBufferHeight =
     (case latestBufferHeight of
        Some k \<Rightarrow> k
      | None \<Rightarrow> (case last_opt hs of Some l \<Rightarrow> l | None \<Rightarrow> latestBufferedHeight s))"

definition enqueueBlocks ::
  "('w, 'e, 'hdr) env \<Rightarrow> 'w dispatcher \<Rightarrow> 'b item list \<Rightarrow> int option \<Rightarrow>
     ('e failure + unit) \<times> 'w dispatcher \<times> ('w, 'e, 'hdr) event list" where
  "enqueueBlocks env s heights latestBufferHeight =
     (if \<not> list_all isNumber heights then (Inl (AssertionError OnlyNumbersSupported), s, [])
      else
        let hs = bypass heights latestBufferHeight;
            logged = [LogEnqueueing (first_opt hs) (last_opt hs) (length hs)]
        in (case getNextWorkerIndex env s of
              (Inl f, tr) \<Rightarrow> (Inl f, s, logged @ tr)
            | (Inr idx, tr) \<Rightarrow>
                (case enqueueEach s hs idx of
                   (Inl f, tr') \<Rightarrow> (Inl f, s, logged @ tr @ tr')
                 | (Inr u, tr') \<Rightarrow>
                     (case set_latestBufferedHeight env s
                             (nextBufferedHeight s hs latestBufferHeight) of
                        (s', tr'') \<Rightarrow> (Inr (), s', logged @ tr @ tr' @ tr'')))))"

subsection \<open>Shutdown\<close>

text \<open>
  The flag is set, the queue is aborted, and \<^verbatim>\<open>terminate\<close> is called on every handle of
  the pool before the first of these promises is awaited.
\<close>

definition onApplicationShutdown ::
  "('w, 'e, 'hdr) env \<Rightarrow> 'w dispatcher \<Rightarrow>
     ('e failure + unit) \<times> 'w dispatcher \<times> ('w, 'e, 'hdr) event list" where
  "onApplicationShutdown env s =
     (let s' = s\<lparr>isShutdown := True\<rparr>;
          tr = QueueAbort # map Terminate (workers s');
          rej = rejections (map (terminate env) (workers s'))
      in if rej = [] then (Inr (), s', tr) else (Inl (PromiseAllRejected rej), s', tr))"

subsection \<open>Reading a trace\<close>

fun assignments :: "('w, 'e, 'hdr) event list \<Rightarrow> (int \<times> int) list" where
  "assignments [] = []"
| "assignments (QueuePut t # evs) = (height t, workerIdx t) # assignments evs"
| "assignments (ev # evs) = assignments evs"

fun fetches :: "('w, 'e, 'hdr) event list \<Rightarrow> ('w \<times> int) list" where
  "fetches [] = []"
| "fetches (FetchBlock w h # evs) = (w, h) # fetches evs"
| "fetches (ev # evs) = fetches evs"

fun statusCalls :: "('w, 'e, 'hdr) event list \<Rightarrow> 'w list" where
  "statusCalls [] = []"
| "statusCalls (GetStatus w # evs) = w # statusCalls evs"
| "statusCalls (ev # evs) = statusCalls evs"

fun terminateCalls :: "('w, 'e, 'hdr) event list \<Rightarrow> 'w list" where
  "terminateCalls [] = []"
| "terminateCalls (Terminate w # evs) = w # terminateCalls evs"
| "terminateCalls (ev # evs) = terminateCalls evs"

fun exits :: "('w, 'e, 'hdr) event list \<Rightarrow> int list" where
  "exits [] = []"
| "exits (ProcessExit c # evs) = c # exits evs"
| "exits (ev # evs) = exits evs"

fun aborts :: "('w, 'e, 'hdr) event list \<Rightarrow> nat" where
  "aborts [] = 0"
| "aborts (QueueAbort # evs) = Suc (aborts evs)"
| "aborts (ev # evs) = aborts evs"

text \<open>A call of a hook or of the worker's \<^verbatim>\<open>processBlock\<close>.\<close>

fun isProcessing :: "('w, 'e, 'hdr) event \<Rightarrow> bool" where
  "isProcessing (PreProcessBlock x) = True"
| "isProcessing (WorkerProcessBlock w h) = True"
| "isProcessing (PostProcessBlock x r) = True"
| "isProcessing ev = False"

subsection \<open>The least loaded workers\<close>

text \<open>
  The positions in the pool of the workers whose backlog is the minimum of all backlogs,
  in the order of the pool: the set that the load balancer is to choose from.
\<close>

definition tied :: "workerStatusResponse list \<Rightarrow> nat list" where
  "tied sts =
     filter (\<lambda>i. Some (toFetchBlocks (sts ! i)) = math_min (map toFetchBlocks sts))
       [0..<length sts]"

subsection \<open>A pool of four workers\<close>

text \<open>
  A dispatcher with four workers, named by their positions, whose counter stands at 100.
  Worker \<open>w\<close> reports the thread identifier \<open>firstId + w\<close> and the backlogs are
  3, 1, 1 and 4; the random number, the outcome of every fetch and the outcome of every
  \<^verbatim>\<open>processBlock\<close> of a worker are parameters. The hooks succeed. Exceptions are
  strings, headers are heights.
\<close>

definition demoPool :: "nat dispatcher" where
  "demoPool =
     \<lparr>workers = [0, 1, 2, 3], numWorkers = 4, isShutdown = False, latestBufferedHeight = 100,
      queue = \<lparr>capacity = Finite 200, concurrency = 1, taskTimeoutSec = Some 900,
               queueName = Some ''Worker''\<rparr>\<rparr>"

text \<open>The random numbers \<open>1/2\<close>, \<open>1/4\<close> and \<open>3/4\<close>.\<close>

definition oneHalf :: fraction64 where
  "oneHalf = \<lparr>significand = 2 ^ 52, scale = 53\<rparr>"

definition oneQuarter :: fraction64 where
  "oneQuarter = \<lparr>significand = 2 ^ 52, scale = 54\<rparr>"

definition threeQuarters :: fraction64 where
  "threeQuarters = \<lparr>significand = 3 * 2 ^ 51, scale = 53\<rparr>"

definition demoResponse :: "int processBlockResponse" where
  "demoResponse = \<lparr>dynamicDsCreated = False, reindexBlockHeader = None\<rparr>"

definition demoEnv ::
  "int \<Rightarrow> fraction64 \<Rightarrow> string + int \<Rightarrow> string + int processBlockResponse \<Rightarrow>
     (nat, string, int) env" where
  "demoEnv firstId r fetched processed =
     \<lparr>getStatus = (\<lambda>w. Inr \<lparr>threadId = firstId + int w, toFetchBlocks = [3, 1, 1, 4] ! w\<rparr>),
      fetchBlock = (\<lambda>w h. fetched),
      worker_processBlock = (\<lambda>w h. processed),
      terminate = (\<lambda>w. Inr 0),
      preProcessBlock = (\<lambda>x. None),
      postProcessBlock = (\<lambda>x r. None),
      mathRandom = r,
      isTaskFlushedError = (\<lambda>e. e = ''flushed''),
      isBlockUnavailableError = (\<lambda>e. e = ''unavailable''),
      queueSize = 0\<rparr>"

definition demoStatuses :: "int \<Rightarrow> workerStatusResponse list" where
  "demoStatuses firstId =
     [\<lparr>threadId = firstId, toFetchBlocks = 3\<rparr>, \<lparr>threadId = firstId + 1, toFetchBlocks = 1\<rparr>,
      \<lparr>threadId = firstId + 2, toFetchBlocks = 1\<rparr>, \<lparr>threadId = firstId + 3, toFetchBlocks = 4\<rparr>]"

text \<open>The same environment with hooks that throw what is given (\<open>None\<close>: they succeed).\<close>

definition demoHooks :: "string option \<Rightarrow> string option \<Rightarrow> (nat, string, int) env" where
  "demoHooks pre post =
     (demoEnv 1 oneHalf (Inr 101) (Inr demoResponse))
       \<lparr>preProcessBlock := (\<lambda>x. pre), postProcessBlock := (\<lambda>x r. post)\<rparr>"

text \<open>The task of height 101 given to worker 2 while the counter stood at 100.\<close>

definition demoTask :: "nat task" where
  "demoTask = \<lparr>height = 101, workerIdx = 2, worker = 2, bufferedHeight = 100\<rparr>"

section \<open>Properties\<close>

subsection \<open>Rounding\<close>

lemma unit53_small: "p < 2 ^ 53 \<Longrightarrow> unit53 p = 1"
  by (simp add: unit53.simps)

lemma unit53_pos: "0 < unit53 p"
  by (induction p rule: unit53.induct) (subst unit53.simps, simp)

lemma unit53_le: "2 ^ 53 \<le> p \<Longrightarrow> 2 ^ 52 * unit53 p \<le> p"
proof (induction p rule: unit53.induct)
  case (1 p)
  show ?case
  proof (cases "p div 2 < 2 ^ 53")
    case True
    then have "unit53 p = 2"
      using "1.prems" by (subst unit53.simps) (simp add: unit53_small)
    with "1.prems" show ?thesis by simp
  next
    case False
    then have "2 ^ 52 * unit53 (p div 2) \<le> p div 2"
      using "1.IH" "1.prems" by simp
    moreover have "unit53 p = 2 * unit53 (p div 2)"
      using "1.prems" by (subst unit53.simps) simp
    ultimately show ?thesis by simp
  qed
qed

text \<open>Up to \<open>2 ^ 53\<close> every natural number is a binary64 number.\<close>

lemma round53_small: "p < 2 ^ 53 \<Longrightarrow> round53 p = p"
  by (simp add: round53_def unit53_small)

lemma round53_exact: "p \<le> 2 ^ 53 \<Longrightarrow> round53 p = p"
proof (cases "p < 2 ^ 53")
  case True
  then show ?thesis by (rule round53_small)
next
  case False
  assume "p \<le> 2 ^ 53"
  with False have p: "p = 2 ^ 53" by simp
  have "unit53 (2 ^ 53) = 2"
    by (subst unit53.simps) (simp add: unit53_small)
  then show ?thesis
    by (simp add: p round53_def)
qed

text \<open>Rounding moves a number by at most half a unit, that is, by at most its \<open>2 ^ 53\<close>-th part.\<close>

lemma round53_near: "2 * \<bar>int (round53 p) - int p\<bar> \<le> int (unit53 p)"
proof -
  let ?q = "unit53 p"
  have q: "0 < ?q" by (rule unit53_pos)
  have split: "p = (p div ?q) * ?q + p mod ?q" by simp
  have less: "p mod ?q < ?q" using q by simp
  have parts: "int p = int (p div ?q * ?q) + int (p mod ?q)"
    using split by (metis of_nat_add)
  show ?thesis
  proof (cases "2 * (p mod ?q) < ?q \<or> (2 * (p mod ?q) = ?q \<and> even (p div ?q))")
    case True
    then have "round53 p = (p div ?q) * ?q"
      by (auto simp: round53_def Let_def)
    then have "int (round53 p) = int (p div ?q * ?q)"
      by simp
    with parts have "int p - int (round53 p) = int (p mod ?q)"
      by linarith
    with True show ?thesis by auto
  next
    case False
    then have "round53 p = (p div ?q + 1) * ?q"
      by (auto simp: round53_def Let_def)
    then have "int (round53 p) = int (p div ?q * ?q) + int ?q"
      by simp
    with parts have "int (round53 p) - int p = int ?q - int (p mod ?q)"
      by linarith
    with False less show ?thesis by auto
  qed
qed

lemma round53_error: "2 ^ 53 * \<bar>int (round53 p) - int p\<bar> \<le> int p"
proof (cases "p < 2 ^ 53")
  case True
  then show ?thesis by (simp add: round53_small)
next
  case False
  then have "2 ^ 52 * unit53 p \<le> p"
    by (intro unit53_le) simp
  then have "2 ^ 52 * int (unit53 p) \<le> int p"
    by (metis of_nat_le_iff of_nat_mult of_nat_numeral of_nat_power)
  with round53_near [of p] show ?thesis
    by simp
qed

lemma round53_close:
  fixes p :: nat
  shows "\<bar>real (round53 p) - real p\<bar> \<le> real p / 2 ^ 53"
proof -
  define c :: int where "c = 2 ^ 53"
  have c: "0 < c" by (simp add: c_def)
  have "c * \<bar>int (round53 p) - int p\<bar> \<le> int p"
    unfolding c_def by (rule round53_error)
  then have "real_of_int (c * \<bar>int (round53 p) - int p\<bar>) \<le> real_of_int (int p)"
    by (simp only: of_int_le_iff)
  then have "real_of_int c * \<bar>real (round53 p) - real p\<bar> \<le> real p"
    by simp
  moreover have "0 < real_of_int c" using c by simp
  ultimately have "\<bar>real (round53 p) - real p\<bar> \<le> real p / real_of_int c"
    by (simp add: pos_le_divide_eq mult.commute)
  then show ?thesis
    by (simp add: c_def)
qed

lemma binary64_exact:
  assumes "\<bar>x\<bar> \<le> 2 ^ 53"
  shows "binary64 x = Finite x"
proof -
  from assms have small: "nat \<bar>x\<bar> \<le> 2 ^ 53"
    by (simp add: nat_le_iff)
  then have m: "round53 (nat \<bar>x\<bar>) = nat \<bar>x\<bar>"
    by (rule round53_exact)
  have "(2 :: nat) ^ 53 < 2 ^ 1024"
    by (rule power_strict_increasing) simp_all
  with small have "\<not> 2 ^ 1024 \<le> nat \<bar>x\<bar>"
    by linarith
  then show ?thesis
    by (auto simp: binary64_def m Let_def)
qed

subsection \<open>The random place\<close>

text \<open>The place is below the length, whatever the rounding of the product.\<close>

lemma floorTimes_less:
  assumes "significand r < 2 ^ 53" and "53 \<le> scale r" and "0 < n"
  shows "floorTimes r n < n"
proof -
  define c :: int where "c = 2 ^ 53"
  define R where "R = int (round53 (significand r * n))"
  define P where "P = int (significand r * n)"
  define N where "N = int n"
  have c: "0 < c"
    by (simp add: c_def)
  have err: "c * \<bar>R - P\<bar> \<le> P"
    unfolding c_def R_def P_def by (rule round53_error)
  have "c * (R - P) \<le> c * \<bar>R - P\<bar>"
    using c by (intro mult_left_mono) simp_all
  with err have "c * (R - P) \<le> P"
    by (rule order_trans [rotated])
  then have a: "c * R \<le> (c + 1) * P"
    by (simp add: algebra_simps)
  have "int (significand r) < c"
    unfolding c_def using assms(1) by (metis of_nat_less_iff of_nat_numeral of_nat_power)
  then have "int (significand r) \<le> c - 1"
    by simp
  then have "int (significand r) * N \<le> (c - 1) * N"
    unfolding N_def by (intro mult_right_mono) simp_all
  then have P: "P \<le> (c - 1) * N"
    by (simp add: P_def N_def)
  have "(c + 1) * P \<le> (c + 1) * ((c - 1) * N)"
    using c P by (intro mult_left_mono) simp_all
  also have "\<dots> = c * (c * N) - N"
    by (simp add: algebra_simps)
  also have "\<dots> < c * (c * N)"
    using assms(3) by (simp add: N_def)
  finally have "c * R < c * (c * N)"
    using a by simp
  with c have "R < c * N"
    by simp
  then have "int (round53 (significand r * n)) < int (2 ^ 53 * n)"
    by (simp add: R_def c_def N_def)
  then have "round53 (significand r * n) < 2 ^ 53 * n"
    by (simp only: of_nat_less_iff)
  also have "(2 :: nat) ^ 53 * n \<le> 2 ^ scale r * n"
    using assms(2) by (intro mult_right_mono power_increasing) simp_all
  finally have "round53 (significand r * n) < n * 2 ^ scale r"
    by (simp add: mult.commute)
  then show ?thesis
    by (simp add: floorTimes_def less_mult_imp_div_less)
qed

text \<open>The place is the floor of the rounded product, and the rounded product is near the exact one.\<close>

lemma floorTimes_fl:
  "real (floorTimes r n) \<le> real (round53 (significand r * n)) / 2 ^ scale r
   \<and> real (round53 (significand r * n)) / 2 ^ scale r < real (floorTimes r n) + 1"
proof -
  define E :: nat where "E = 2 ^ scale r"
  define R where "R = round53 (significand r * n)"
  have E: "0 < E" by (simp add: E_def)
  have low: "R div E * E \<le> R"
    by simp
  have up: "R < (R div E + 1) * E"
    using E by (metis Suc_eq_plus1 dividend_less_div_times mult.commute mult_Suc add.commute)
  from low have "real (R div E * E) \<le> real R"
    by (simp only: of_nat_le_iff)
  then have a: "real (R div E) \<le> real R / real E"
    using E by (simp add: pos_le_divide_eq)
  from up have "real R < real ((R div E + 1) * E)"
    by (simp only: of_nat_less_iff)
  then have b: "real R / real E < real (R div E) + 1"
    using E by (simp add: pos_divide_less_eq algebra_simps)
  from a b show ?thesis
    by (simp add: floorTimes_def E_def R_def)
qed

lemma fl_close:
  "\<bar>real (round53 (significand r * n)) / 2 ^ scale r - valueOf r * real n\<bar>
     \<le> valueOf r * real n / 2 ^ 53"
proof -
  define E :: real where "E = 2 ^ scale r"
  define R where "R = real (round53 (significand r * n))"
  define P where "P = real (significand r * n)"
  define c :: real where "c = 2 ^ 53"
  have E: "0 < E" by (simp add: E_def)
  have v: "valueOf r * real n = P / E"
    by (simp add: valueOf_def P_def E_def)
  have "\<bar>R - P\<bar> \<le> P / c"
    unfolding R_def P_def c_def by (rule round53_close)
  then have "\<bar>R - P\<bar> / E \<le> P / c / E"
    using E by (intro divide_right_mono) simp_all
  moreover have "\<bar>R / E - P / E\<bar> = \<bar>R - P\<bar> / E"
    using E by (simp add: diff_divide_distrib [symmetric])
  moreover have "P / c / E = P / E / c"
    by simp
  ultimately have "\<bar>R / E - P / E\<bar> \<le> P / E / 2 ^ 53"
    by (simp add: c_def)
  then show ?thesis
    unfolding v by (simp add: R_def E_def)
qed

lemma floorTimes_bounds:
  "real (floorTimes r n) \<le> valueOf r * real n * (1 + 1 / 2 ^ 53)
   \<and> valueOf r * real n * (1 - 1 / 2 ^ 53) < real (floorTimes r n) + 1"
proof -
  define f where "f = real (round53 (significand r * n)) / 2 ^ scale r"
  define x where "x = valueOf r * real n"
  define d where "d = x / 2 ^ 53"
  have close: "\<bar>f - x\<bar> \<le> d"
    unfolding f_def x_def d_def by (rule fl_close)
  have fl: "real (floorTimes r n) \<le> f" "f < real (floorTimes r n) + 1"
    using floorTimes_fl [of r n] by (simp_all add: f_def)
  have e1: "x * (1 + 1 / 2 ^ 53) = x + d" and e2: "x * (1 - 1 / 2 ^ 53) = x - d"
    by (simp_all add: d_def algebra_simps)
  from close fl show ?thesis
    unfolding x_def [symmetric] e1 e2 by linarith
qed

lemma floorTimes_eqI:
  assumes "real j \<le> valueOf r * real n * (1 - 1 / 2 ^ 53)"
    and "valueOf r * real n * (1 + 1 / 2 ^ 53) < real j + 1"
  shows "floorTimes r n = j"
proof -
  define f where "f = real (round53 (significand r * n)) / 2 ^ scale r"
  define x where "x = valueOf r * real n"
  define d where "d = x / 2 ^ 53"
  have close: "\<bar>f - x\<bar> \<le> d"
    unfolding f_def x_def d_def by (rule fl_close)
  have fl: "real (floorTimes r n) \<le> f" "f < real (floorTimes r n) + 1"
    using floorTimes_fl [of r n] by (simp_all add: f_def)
  have e1: "x * (1 + 1 / 2 ^ 53) = x + d" and e2: "x * (1 - 1 / 2 ^ 53) = x - d"
    by (simp_all add: d_def algebra_simps)
  from assms have "real j \<le> x - d" "x + d < real j + 1"
    unfolding x_def [symmetric] e1 e2 by simp_all
  with close fl have "real (floorTimes r n) < real j + 1" "real j < real (floorTimes r n) + 1"
    by linarith+
  then show ?thesis
    by linarith
qed

text \<open>
  The product is rounded before the floor is taken: for \<^verbatim>\<open>0.6666666666666666\<close>, which is
  \<open>6004799503160661 / 2 ^ 53\<close>, and three candidates, the exact product lies below 2 and
  the place is 2.
\<close>

lemma floorTimes_rounds_up:
  "floorTimes \<lparr>significand = 6004799503160661, scale = 53\<rparr> 3 = 2"
  by (simp add: floorTimes_def round53_def unit53.simps)

subsection \<open>Reading traces\<close>

lemma terminateCalls_map: "terminateCalls (map Terminate ws) = ws"
  by (induction ws) auto

lemma aborts_map_Terminate: "aborts (map Terminate ws) = 0"
  by (induction ws) auto

lemma assignments_map_GetStatus: "assignments (map GetStatus ws) = []"
  by (induction ws) auto

lemma fetches_map_GetStatus: "fetches (map GetStatus ws) = []"
  by (induction ws) auto

lemma statusCalls_map_GetStatus: "statusCalls (map GetStatus ws) = ws"
  by (induction ws) auto

lemma assignments_append: "assignments (xs @ ys) = assignments xs @ assignments ys"
  by (induction xs rule: assignments.induct) auto

lemma fetches_append: "fetches (xs @ ys) = fetches xs @ fetches ys"
  by (induction xs rule: fetches.induct) auto

lemma statusCalls_append: "statusCalls (xs @ ys) = statusCalls xs @ statusCalls ys"
  by (induction xs rule: statusCalls.induct) auto

lemma exits_append: "exits (xs @ ys) = exits xs @ exits ys"
  by (induction xs rule: exits.induct) auto

lemma count_list_distinct: "distinct xs \<Longrightarrow> x \<in> set xs \<Longrightarrow> count_list xs x = 1"
  by (induction xs) auto

text \<open>What one batch for one worker puts into the trace.\<close>

lemma assignments_assigned:
  "assignments (concat (map (\<lambda>h. [FetchBlock w h,
       QueuePut \<lparr>height = h, workerIdx = idx, worker = w, bufferedHeight = b\<rparr>]) hs))
     = map (\<lambda>h. (h, idx)) hs"
  by (induction hs) auto

lemma fetches_assigned:
  "fetches (concat (map (\<lambda>h. [FetchBlock w h,
       QueuePut \<lparr>height = h, workerIdx = idx, worker = w, bufferedHeight = b\<rparr>]) hs))
     = map (\<lambda>h. (w, h)) hs"
  by (induction hs) auto

lemma statusCalls_assigned:
  "statusCalls (concat (map (\<lambda>h. [FetchBlock w h,
       QueuePut \<lparr>height = h, workerIdx = idx, worker = w, bufferedHeight = b\<rparr>]) hs))
     = []"
  by (induction hs) auto

subsection \<open>Batches of numbers\<close>

lemma numbers_all: "list_all isNumber xs \<Longrightarrow> map Height (numbers xs) = xs"
  by (induction xs rule: numbers.induct) auto

lemma numbers_map_Height: "numbers (map Height hs) = hs"
  by (induction hs) auto

lemma all_numbers_map_Height: "list_all isNumber (map Height hs)"
  by (induction hs) auto

subsection \<open>The steps of an assignment\<close>

lemma enqueueBlock_shutdown: "isShutdown s \<Longrightarrow> enqueueBlock s h idx = (Inr (), [])"
  by (simp add: enqueueBlock_def)

lemma enqueueEach_shutdown: "isShutdown s \<Longrightarrow> enqueueEach s hs idx = (Inr (), [])"
  by (induction hs) (auto simp: enqueueBlock_shutdown)

lemma enqueueEach_open:
  assumes "\<not> isShutdown s" "at_index (workers s) idx = Some w"
  shows "enqueueEach s hs idx =
           (Inr (), concat (map (\<lambda>h. [FetchBlock w h,
                                       QueuePut \<lparr>height = h, workerIdx = idx, worker = w,
                                                 bufferedHeight = latestBufferedHeight s\<rparr>]) hs))"
  using assms by (induction hs) (auto simp: enqueueBlock_def)

lemma getNextWorkerIndex_trace: "snd (getNextWorkerIndex env s) = map GetStatus (workers s)"
  by (simp add: getNextWorkerIndex_def Let_def split: option.splits)

text \<open>A batch of numbers whose worker is found and whose heights are all put.\<close>

lemma enqueueBlocks_numbers:
  assumes "list_all isNumber (heights :: 'b item list)"
    and "getNextWorkerIndex env s = (Inr idx, tr0)"
    and "enqueueEach s (bypass heights latestBufferHeight) idx = (Inr (), tr1)"
  shows "enqueueBlocks env s heights latestBufferHeight =
           (Inr (),
            s\<lparr>latestBufferedHeight :=
                 nextBufferedHeight s (bypass heights latestBufferHeight) latestBufferHeight\<rparr>,
            LogEnqueueing (first_opt (bypass heights latestBufferHeight))
                (last_opt (bypass heights latestBufferHeight))
                (length (bypass heights latestBufferHeight))
              # tr0 @ tr1 @ [EmitBlockQueueSize (queueSize env)])"
  using assms by (simp add: enqueueBlocks_def Let_def set_latestBufferedHeight_def)

lemma enqueueBlocks_returns:
  assumes "list_all isNumber (heights :: 'b item list)" and "\<not> isShutdown s"
    and "getNextWorkerIndex env s = (Inr idx, tr0)"
    and "at_index (workers s) idx = Some w"
  shows "\<exists>s' tr. enqueueBlocks env s heights latestBufferHeight = (Inr (), s', tr)"
  using enqueueBlocks_numbers [OF assms(1,3) enqueueEach_open [OF assms(2,4)]]
  by blast

text \<open>What a batch that returned has gone through.\<close>

lemma enqueueBlocks_returned:
  assumes "enqueueBlocks (env :: ('w, 'e, 'hdr) env) s (heights :: 'b item list) latestBufferHeight
             = (Inr (), s', tr)"
  shows "\<exists>idx tr0 (tr1 :: ('w, 'e, 'hdr) event list).
           getNextWorkerIndex env s = (Inr idx, tr0)
           \<and> enqueueEach s (bypass heights latestBufferHeight) idx = (Inr (), tr1)"
  using assms
  by (auto simp: enqueueBlocks_def Let_def split: if_splits prod.splits sum.splits)

lemma enqueueEach_worker:
  assumes "\<not> isShutdown s" and "hs \<noteq> []" and "enqueueEach s hs idx = (Inr (), tr1)"
  shows "\<exists>w. at_index (workers s) idx = Some w"
  using assms
  by (cases hs) (auto simp: enqueueBlock_def split: option.splits prod.splits sum.splits)

text \<open>After shutdown a batch fetches nothing, puts nothing and leaves the flag set.\<close>

lemma enqueueBlocks_shutdown:
  assumes "isShutdown s"
  shows "fetches (snd (snd (enqueueBlocks env s (heights :: 'b item list) latestBufferHeight))) = []
       \<and> assignments (snd (snd (enqueueBlocks env s heights latestBufferHeight))) = []
       \<and> isShutdown (fst (snd (enqueueBlocks env s heights latestBufferHeight)))"
proof (cases "getNextWorkerIndex env s")
  case (Pair res tr0)
  then have tr0: "tr0 = map GetStatus (workers s)"
    using getNextWorkerIndex_trace [of env s] by simp
  show ?thesis
    using assms
    by (cases res)
      (simp_all add: enqueueBlocks_def Let_def Pair tr0 enqueueEach_shutdown
        set_latestBufferedHeight_def fetches_append assignments_append
        fetches_map_GetStatus assignments_map_GetStatus)
qed

subsection \<open>The steps of a task\<close>

text \<open>
  The body of \<^verbatim>\<open>try\<close> throws exactly what the fetch, the first hook, the worker or the
  second hook throws, the later ones being reached only when the task is not stale.
\<close>

lemma tryBlock_throws:
  "(fst (tryBlock env s t) = Inl e) =
     (case fetchBlock env (worker t) (height t) of
        Inl e' \<Rightarrow> e' = e
      | Inr header \<Rightarrow>
          \<not> latestBufferedHeight s < bufferedHeight t \<and>
          (case preProcessBlock env header of
             Some e' \<Rightarrow> e' = e
           | None \<Rightarrow>
               (case worker_processBlock env (worker t) (height t) of
                  Inl e' \<Rightarrow> e' = e
                | Inr r \<Rightarrow>
                    postProcessBlock env header
                      \<lparr>dynamicDsCreated = dynamicDsCreated r,
                        reindexBlockHeader = reindexBlockHeader r\<rparr> = Some e)))"
  by (simp add: tryBlock_def Let_def split: sum.splits option.splits)

lemma exits_tryBlock: "exits (snd (tryBlock env s t)) = []"
  by (simp add: tryBlock_def Let_def split: sum.splits option.splits)

lemma tryBlock_stale:
  assumes "latestBufferedHeight s < bufferedHeight t"
  shows "tryBlock env s t =
           (case fetchBlock env (worker t) (height t) of
              Inl e \<Rightarrow> (Inl e, [])
            | Inr header \<Rightarrow> (Inr (), [LogDebugQueueReset]))"
  using assms by (simp add: tryBlock_def split: sum.splits)

subsection \<open>The minimum and the choice\<close>

lemma math_min_Min: "xs \<noteq> [] \<Longrightarrow> math_min xs = Some (Min (set xs))"
proof (induction xs)
  case Nil
  then show ?case by simp
next
  case (Cons x xs)
  show ?case
  proof (cases "xs = []")
    case True
    then show ?thesis by simp
  next
    case False
    with Cons.IH have "math_min xs = Some (Min (set xs))" by simp
    with False show ?thesis by (simp add: Min_insert)
  qed
qed

lemma resolutions_map_Inr: "resolutions (map Inr xs) = xs"
  by (induction xs) auto

lemma rejections_map_Inr: "rejections (map Inr xs) = []"
  by (induction xs) auto

lemma filter_by_index: "filter P xs = map ((!) xs) (filter (\<lambda>i. P (xs ! i)) [0..<length xs])"
proof -
  have "filter P (map ((!) xs) [0..<length xs]) = map ((!) xs) (filter (P \<circ> (!) xs) [0..<length xs])"
    by (rule filter_map)
  then show ?thesis by (simp add: map_nth comp_def)
qed

lemma lowest_tied:
  "filter (\<lambda>st. Some (toFetchBlocks st) = math_min (map toFetchBlocks sts)) sts
     = map ((!) sts) (tied sts)"
  unfolding tied_def by (rule filter_by_index)

lemma tied_nonempty:
  assumes "sts \<noteq> []"
  shows "tied sts \<noteq> []"
proof -
  let ?m = "Min (set (map toFetchBlocks sts))"
  have "?m \<in> set (map toFetchBlocks sts)"
    using assms by (intro Min_in) auto
  then obtain i where "i < length sts" "toFetchBlocks (sts ! i) = ?m"
    by (auto simp: in_set_conv_nth)
  then have "i \<in> set (tied sts)"
    using assms by (simp add: tied_def math_min_Min)
  then show ?thesis by auto
qed

lemma tied_member:
  assumes "i \<in> set (tied sts)"
  shows "i < length sts \<and> toFetchBlocks (sts ! i) = Min (set (map toFetchBlocks sts))"
proof -
  from assms have i: "i < length sts"
    and m: "Some (toFetchBlocks (sts ! i)) = math_min (map toFetchBlocks sts)"
    by (auto simp: tied_def)
  from i have "map toFetchBlocks sts \<noteq> []" by auto
  from math_min_Min [OF this] m i show ?thesis by simp
qed

lemma distinct_tied: "distinct (tied sts)"
  by (simp add: tied_def)

lemma getNextWorkerIndex_resolved:
  assumes "map (getStatus env) (workers s) = map Inr sts"
  shows "getNextWorkerIndex env s =
           (case at_index (map ((!) sts) (tied sts))
                   (int (floorTimes (mathRandom env) (length (tied sts)))) of
              None \<Rightarrow> (Inl TypeError, map GetStatus (workers s))
            | Some st \<Rightarrow> (Inr (threadId st - 1), map GetStatus (workers s)))"
  by (simp add: getNextWorkerIndex_def Let_def assms resolutions_map_Inr rejections_map_Inr
      lowest_tied)

subsection \<open>The pool of four workers\<close>

lemma demo_places:
  "floorTimes oneHalf 2 = 1" "floorTimes oneQuarter 2 = 0" "floorTimes threeQuarters 2 = 1"
  by (simp_all add: floorTimes_def round53_def unit53.simps oneHalf_def oneQuarter_def
      threeQuarters_def)

lemma demo_random:
  "inUnitInterval oneHalf" "inUnitInterval oneQuarter" "inUnitInterval threeQuarters"
  by (simp_all add: inUnitInterval_def oneHalf_def oneQuarter_def threeQuarters_def)

lemma demo_answers:
  "map (getStatus (demoEnv firstId r f p)) (workers demoPool) = map Inr (demoStatuses firstId)"
  by (simp add: demoEnv_def demoPool_def demoStatuses_def)

lemma demo_tied: "tied (demoStatuses firstId) = [1, 2]"
  by (simp add: tied_def demoStatuses_def upt_rec)

lemma demo_mathRandom: "mathRandom (demoEnv i r f p) = r"
  by (simp add: demoEnv_def)

lemma demo_threadIds:
  "threadId (demoStatuses i ! 1) = i + 1" "threadId (demoStatuses i ! 2) = i + 2"
  by (simp_all add: demoStatuses_def)

lemma demo_balancer:
  "getNextWorkerIndex (demoEnv 1 oneHalf (Inr h) (Inr demoResponse)) demoPool =
     (Inr 2, [GetStatus 0, GetStatus 1, GetStatus 2, GetStatus 3])"
proof -
  have pool: "workers demoPool = [0, 1, 2, 3]"
    by (simp add: demoPool_def)
  show ?thesis
    using demo_threadIds [of 1]
    by (simp add: getNextWorkerIndex_resolved [OF demo_answers] demo_tied demo_mathRandom
        demo_places [unfolded numeral_2_eq_2] at_index_def pool)
qed

lemma demo_queueSize: "queueSize (demoEnv i r f p) = 0"
  by (simp add: demoEnv_def)

lemma demo_worker: "at_index (workers demoPool) 2 = Some 2" "\<not> isShutdown demoPool"
  by (simp_all add: demoPool_def at_index_def)

text \<open>
  With the backlogs 3, 1, 1, 4 and the thread identifiers 1, 2, 3, 4, no random number
  makes the load balancer return the position of the worker with backlog 3 or 4.
\<close>

lemma demo_never_loaded:
  assumes "inUnitInterval r"
  shows "fst (getNextWorkerIndex (demoEnv 1 r f p) demoPool) = Inr 1
       \<or> fst (getNextWorkerIndex (demoEnv 1 r f p) demoPool) = Inr 2"
proof -
  have "floorTimes r 2 < 2"
    using assms by (intro floorTimes_less) (simp_all add: inUnitInterval_def)
  then have "floorTimes r (Suc (Suc 0)) = 0 \<or> floorTimes r (Suc (Suc 0)) = 1"
    by (auto simp: numeral_2_eq_2)
  then show ?thesis
    using demo_threadIds [of 1]
    by (auto simp: getNextWorkerIndex_resolved [OF demo_answers] demo_tied demo_mathRandom
        at_index_def)
qed

section \<open>The claims\<close>

subsection \<open>Fencing\<close>

text \<open>
  C1. Let a unit of work at height \<open>h\<close> be assigned in a state \<open>s0\<close>, so that its task
  carries the fencing token \<open>latestBufferedHeight s0\<close>, and let the task run in a state
  \<open>s\<close> whose counter is strictly below that token. Then neither hook nor the worker's
  \<^verbatim>\<open>processBlock\<close> is called, whatever the fetch answered; and once the fetch has
  delivered its header, so that the fencing check is reached, the task returns and all
  it has done is to write the debug line of the discard. (A fetch that failed is caught
  before the check: the task then ends as the \<^verbatim>\<open>catch\<close> block says, see C3.)
\<close>

theorem stale_task_is_discarded:
  assumes "QueuePut t \<in> set (snd (enqueueBlock s0 h idx :: ('e failure + unit) \<times> ('w, 'e, 'hdr) event list))"
    and "latestBufferedHeight s < latestBufferedHeight s0"
  shows "height t = h \<and> bufferedHeight t = latestBufferedHeight s0
       \<and> (\<forall>ev \<in> set (snd (processBlock env s t)). \<not> isProcessing ev)
       \<and> (\<forall>header. fetchBlock env (worker t) (height t) = Inr header \<longrightarrow>
             processBlock env s t = (Returned, [LogDebugQueueReset]))
       \<and> (\<forall>e. fetchBlock env (worker t) (height t) = Inl e \<longrightarrow>
             processBlock env s t = catchBlock env (height t) e)"
proof -
  from assms(1) have t: "height t = h" "bufferedHeight t = latestBufferedHeight s0"
    by (auto simp: enqueueBlock_def split: if_splits option.splits)
  with assms(2) have stale: "latestBufferedHeight s < bufferedHeight t"
    by simp
  show ?thesis
    using t by (auto simp: processBlock_def catchBlock_def tryBlock_stale [OF stale]
        split: sum.splits)
qed

text \<open>The counter stands at 100 when height 101 is assigned and at 50 when its task runs.\<close>

theorem stale_task_is_discarded_witness:
  "QueuePut demoTask \<in>
     set (snd (enqueueBlock demoPool 101 2 :: (string failure + unit) \<times> (nat, string, int) event list))
   \<and> latestBufferedHeight (demoPool\<lparr>latestBufferedHeight := 50\<rparr>) < latestBufferedHeight demoPool
   \<and> processBlock (demoEnv 1 oneHalf (Inr 101) (Inr demoResponse))
        (demoPool\<lparr>latestBufferedHeight := 50\<rparr>) demoTask = (Returned, [LogDebugQueueReset])"
proof -
  let ?E = "demoEnv 1 oneHalf (Inr 101) (Inr demoResponse)"
  have put: "QueuePut demoTask \<in>
     set (snd (enqueueBlock demoPool 101 2 :: (string failure + unit) \<times> (nat, string, int) event list))"
    by (simp add: enqueueBlock_def demoPool_def demoTask_def at_index_def)
  have reset: "latestBufferedHeight (demoPool\<lparr>latestBufferedHeight := 50\<rparr>) < latestBufferedHeight demoPool"
    by (simp add: demoPool_def)
  have fetched: "fetchBlock ?E (worker demoTask) (height demoTask) = Inr 101"
    by (simp add: demoEnv_def)
  from stale_task_is_discarded [OF put reset, of ?E] fetched put reset show ?thesis
    by blast
qed

subsection \<open>Shutdown\<close>

text \<open>
  C2. After \<^verbatim>\<open>onApplicationShutdown\<close>, however the terminations end, the shutdown flag
  is set, the queue has been aborted once, \<^verbatim>\<open>terminate\<close> has been called once for every
  entry of the pool (so exactly once on every handle, the handles being distinct), and an
  assignment has no effect: \<^verbatim>\<open>enqueueBlock\<close> returns with an empty trace, and a whole
  batch fetches nothing, puts nothing on the queue and leaves the flag set.
\<close>

theorem shutdown_ends_assignment:
  assumes "onApplicationShutdown env s = (res, s', tr)"
  shows "isShutdown s' \<and> aborts tr = 1 \<and> terminateCalls tr = workers s' \<and> workers s' = workers s
       \<and> (distinct (workers s) \<longrightarrow> (\<forall>w \<in> set (workers s). count_list (terminateCalls tr) w = 1))
       \<and> (\<forall>h idx. (enqueueBlock s' h idx :: ('e failure + unit) \<times> ('w, 'e, 'hdr) event list)
             = (Inr (), []))
       \<and> (\<forall>(env' :: ('w, 'e, 'hdr) env) (heights :: 'b item list) latestBufferHeight.
             fetches (snd (snd (enqueueBlocks env' s' heights latestBufferHeight))) = []
             \<and> assignments (snd (snd (enqueueBlocks env' s' heights latestBufferHeight))) = []
             \<and> isShutdown (fst (snd (enqueueBlocks env' s' heights latestBufferHeight))))"
proof -
  from assms have s': "s' = s\<lparr>isShutdown := True\<rparr>" and tr: "tr = QueueAbort # map Terminate (workers s)"
    by (auto simp: onApplicationShutdown_def Let_def split: if_splits)
  have once: "distinct (workers s) \<Longrightarrow> \<forall>w \<in> set (workers s). count_list (workers s) w = 1"
    by (simp add: count_list_distinct)
  have down: "isShutdown s'"
    by (simp add: s')
  have batch: "fetches (snd (snd (enqueueBlocks env' s' heights latestBufferHeight))) = []
      \<and> assignments (snd (snd (enqueueBlocks env' s' heights latestBufferHeight))) = []
      \<and> isShutdown (fst (snd (enqueueBlocks env' s' heights latestBufferHeight)))"
    for env' :: "('w, 'e, 'hdr) env" and heights :: "'b item list" and latestBufferHeight
    by (rule enqueueBlocks_shutdown [OF down])
  have single: "(enqueueBlock s' h idx :: ('e failure + unit) \<times> ('w, 'e, 'hdr) event list)
      = (Inr (), [])" for h idx
    by (rule enqueueBlock_shutdown [OF down])
  have calls: "terminateCalls tr = workers s'" "workers s' = workers s" "aborts tr = 1"
    by (simp_all add: s' tr terminateCalls_map aborts_map_Terminate)
  from once calls have counted:
    "distinct (workers s) \<longrightarrow> (\<forall>w \<in> set (workers s). count_list (terminateCalls tr) w = 1)"
    by simp
  from down calls counted single batch show ?thesis
    by blast
qed

theorem shutdown_ends_assignment_witness:
  "isShutdown (fst (snd (onApplicationShutdown (demoEnv 1 oneHalf (Inr 101) (Inr demoResponse)) demoPool)))
   \<and> aborts (snd (snd (onApplicationShutdown (demoEnv 1 oneHalf (Inr 101) (Inr demoResponse)) demoPool))) = 1
   \<and> terminateCalls (snd (snd (onApplicationShutdown (demoEnv 1 oneHalf (Inr 101) (Inr demoResponse)) demoPool)))
       = [0, 1, 2, 3]
   \<and> count_list (terminateCalls (snd (snd (onApplicationShutdown
          (demoEnv 1 oneHalf (Inr 101) (Inr demoResponse)) demoPool)))) 2 = 1
   \<and> (enqueueBlock (fst (snd (onApplicationShutdown (demoEnv 1 oneHalf (Inr 101) (Inr demoResponse))
          demoPool))) 101 2 :: (string failure + unit) \<times> (nat, string, int) event list) = (Inr (), [])
   \<and> fetches (snd (snd (enqueueBlocks (demoEnv 1 oneHalf (Inr 101) (Inr demoResponse))
        (fst (snd (onApplicationShutdown (demoEnv 1 oneHalf (Inr 101) (Inr demoResponse)) demoPool)))
        [Height 101, Height 102 :: unit item] None))) = []"
proof -
  let ?E = "demoEnv 1 oneHalf (Inr 101) (Inr demoResponse)"
  obtain res s' tr where run: "onApplicationShutdown ?E demoPool = (res, s', tr)"
    by (cases "onApplicationShutdown ?E demoPool") auto
  have pool: "workers demoPool = [0, 1, 2, 3]"
    by (simp add: demoPool_def)
  from shutdown_ends_assignment [OF run, where ?'e = string and ?'hdr = int and ?'b = unit] pool
  show ?thesis
    by (simp add: run)
qed

subsection \<open>Errors of a task\<close>

text \<open>
  C3. Whichever of the four calls of a task throws (the awaited fetch, the hook before,
  the worker's \<^verbatim>\<open>processBlock\<close>, the hook after; the last three are reached only by a
  task that is not stale), with \<open>e\<close> what it throws: if \<open>e\<close> is classified as a flushed
  task or as an unavailable block, the task returns, having done no more than the calls
  up to the one that threw, and no exit of the process is requested; otherwise the
  error is logged with the height of the task and then the exit of the process is
  requested, once, with status 1. No task passes an error on: it returns or the process
  is told to exit, and an exit is requested only in the second case.
\<close>

theorem task_error_policy:
  "(\<forall>e. fetchBlock env (worker t) (height t) = Inl e \<longrightarrow>
      processBlock env s t =
        (if isTaskFlushedError env e \<or> isBlockUnavailableError env e then (Returned, [])
         else (Exited 1, [LogError (height t) e, ProcessExit 1])))
   \<and> (\<forall>header e.
        fetchBlock env (worker t) (height t) = Inr header
        \<and> \<not> latestBufferedHeight s < bufferedHeight t
        \<and> preProcessBlock env header = Some e \<longrightarrow>
        processBlock env s t =
          (if isTaskFlushedError env e \<or> isBlockUnavailableError env e
           then (Returned, [PreProcessBlock header])
           else (Exited 1, [PreProcessBlock header, LogError (height t) e, ProcessExit 1])))
   \<and> (\<forall>header e.
        fetchBlock env (worker t) (height t) = Inr header
        \<and> \<not> latestBufferedHeight s < bufferedHeight t
        \<and> preProcessBlock env header = None
        \<and> worker_processBlock env (worker t) (height t) = Inl e \<longrightarrow>
        processBlock env s t =
          (if isTaskFlushedError env e \<or> isBlockUnavailableError env e
           then (Returned, [PreProcessBlock header, MonitorWrite (workerIdx t),
                            WorkerProcessBlock (worker t) (height t)])
           else (Exited 1, [PreProcessBlock header, MonitorWrite (workerIdx t),
                            WorkerProcessBlock (worker t) (height t),
                            LogError (height t) e, ProcessExit 1])))
   \<and> (\<forall>header r e.
        fetchBlock env (worker t) (height t) = Inr header
        \<and> \<not> latestBufferedHeight s < bufferedHeight t
        \<and> preProcessBlock env header = None
        \<and> worker_processBlock env (worker t) (height t) = Inr r
        \<and> postProcessBlock env header
              \<lparr>dynamicDsCreated = dynamicDsCreated r,
                reindexBlockHeader = reindexBlockHeader r\<rparr> = Some e \<longrightarrow>
        processBlock env s t =
          (if isTaskFlushedError env e \<or> isBlockUnavailableError env e
           then (Returned, [PreProcessBlock header, MonitorWrite (workerIdx t),
                            WorkerProcessBlock (worker t) (height t),
                            PostProcessBlock header
                              \<lparr>dynamicDsCreated = dynamicDsCreated r,
                                reindexBlockHeader = reindexBlockHeader r\<rparr>])
           else (Exited 1, [PreProcessBlock header, MonitorWrite (workerIdx t),
                            WorkerProcessBlock (worker t) (height t),
                            PostProcessBlock header
                              \<lparr>dynamicDsCreated = dynamicDsCreated r,
                                reindexBlockHeader = reindexBlockHeader r\<rparr>,
                            LogError (height t) e, ProcessExit 1])))
   \<and> exits (snd (processBlock env s t)) =
        (case fst (processBlock env s t) of Returned \<Rightarrow> [] | Exited c \<Rightarrow> [c])"
proof -
  have fetch: "processBlock env s t =
        (if isTaskFlushedError env e \<or> isBlockUnavailableError env e then (Returned, [])
         else (Exited 1, [LogError (height t) e, ProcessExit 1]))"
    if "fetchBlock env (worker t) (height t) = Inl e" for e
    using that by (simp add: processBlock_def tryBlock_def catchBlock_def)
  have before: "processBlock env s t =
          (if isTaskFlushedError env e \<or> isBlockUnavailableError env e
           then (Returned, [PreProcessBlock header])
           else (Exited 1, [PreProcessBlock header, LogError (height t) e, ProcessExit 1]))"
    if "fetchBlock env (worker t) (height t) = Inr header"
      and "\<not> latestBufferedHeight s < bufferedHeight t"
      and "preProcessBlock env header = Some e" for header e
    using that by (simp add: processBlock_def tryBlock_def catchBlock_def)
  have process: "processBlock env s t =
          (if isTaskFlushedError env e \<or> isBlockUnavailableError env e
           then (Returned, [PreProcessBlock header, MonitorWrite (workerIdx t),
                            WorkerProcessBlock (worker t) (height t)])
           else (Exited 1, [PreProcessBlock header, MonitorWrite (workerIdx t),
                            WorkerProcessBlock (worker t) (height t),
                            LogError (height t) e, ProcessExit 1]))"
    if "fetchBlock env (worker t) (height t) = Inr header"
      and "\<not> latestBufferedHeight s < bufferedHeight t"
      and "preProcessBlock env header = None"
      and "worker_processBlock env (worker t) (height t) = Inl e" for header e
    using that by (simp add: processBlock_def tryBlock_def catchBlock_def)
  have after: "processBlock env s t =
          (if isTaskFlushedError env e \<or> isBlockUnavailableError env e
           then (Returned, [PreProcessBlock header, MonitorWrite (workerIdx t),
                            WorkerProcessBlock (worker t) (height t),
                            PostProcessBlock header
                              \<lparr>dynamicDsCreated = dynamicDsCreated r,
                                reindexBlockHeader = reindexBlockHeader r\<rparr>])
           else (Exited 1, [PreProcessBlock header, MonitorWrite (workerIdx t),
                            WorkerProcessBlock (worker t) (height t),
                            PostProcessBlock header
                              \<lparr>dynamicDsCreated = dynamicDsCreated r,
                                reindexBlockHeader = reindexBlockHeader r\<rparr>,
                            LogError (height t) e, ProcessExit 1]))"
    if "fetchBlock env (worker t) (height t) = Inr header"
      and "\<not> latestBufferedHeight s < bufferedHeight t"
      and "preProcessBlock env header = None"
      and "worker_processBlock env (worker t) (height t) = Inr r"
      and "postProcessBlock env header
              \<lparr>dynamicDsCreated = dynamicDsCreated r,
                reindexBlockHeader = reindexBlockHeader r\<rparr> = Some e" for header r e
    using that by (simp add: processBlock_def tryBlock_def catchBlock_def Let_def)
  have once: "exits (snd (processBlock env s t)) =
        (case fst (processBlock env s t) of Returned \<Rightarrow> [] | Exited c \<Rightarrow> [c])"
    using exits_tryBlock [of env s t]
    by (cases "tryBlock env s t")
      (auto simp: processBlock_def catchBlock_def exits_append split: sum.splits)
  from fetch before process after once show ?thesis
    by blast
qed

text \<open>
  The fetch is flushed; the hook before throws an error of no class; the worker's
  \<^verbatim>\<open>processBlock\<close> throws an unavailable block, then an error of no class; the hook
  after throws an error of no class.
\<close>

theorem task_error_policy_witness:
  "processBlock (demoEnv 1 oneHalf (Inl ''flushed'') (Inr demoResponse)) demoPool demoTask =
     (Returned, [])
   \<and> processBlock (demoHooks (Some ''boom'') None) demoPool demoTask =
       (Exited 1, [PreProcessBlock 101, LogError 101 ''boom'', ProcessExit 1])
   \<and> processBlock (demoEnv 1 oneHalf (Inr 101) (Inl ''unavailable'')) demoPool demoTask =
       (Returned, [PreProcessBlock 101, MonitorWrite 2, WorkerProcessBlock 2 101])
   \<and> processBlock (demoEnv 1 oneHalf (Inr 101) (Inl ''boom'')) demoPool demoTask =
       (Exited 1, [PreProcessBlock 101, MonitorWrite 2, WorkerProcessBlock 2 101,
                   LogError 101 ''boom'', ProcessExit 1])
   \<and> processBlock (demoHooks None (Some ''boom'')) demoPool demoTask =
       (Exited 1, [PreProcessBlock 101, MonitorWrite 2, WorkerProcessBlock 2 101,
                   PostProcessBlock 101 \<lparr>dynamicDsCreated = False, reindexBlockHeader = None\<rparr>,
                   LogError 101 ''boom'', ProcessExit 1])
   \<and> exits (snd (processBlock (demoHooks None (Some ''boom'')) demoPool demoTask)) = [1]"
proof -
  let ?flushed = "demoEnv 1 oneHalf (Inl ''flushed'') (Inr demoResponse)"
  let ?before = "demoHooks (Some ''boom'') None"
  let ?unavailable = "demoEnv 1 oneHalf (Inr 101) (Inl ''unavailable'')"
  let ?boom = "demoEnv 1 oneHalf (Inr 101) (Inl ''boom'')"
  let ?after = "demoHooks None (Some ''boom'')"
  have task: "height demoTask = 101" "worker demoTask = 2" "workerIdx demoTask = 2"
    "\<not> latestBufferedHeight demoPool < bufferedHeight demoTask"
    by (simp_all add: demoTask_def demoPool_def)
  have c1: "fetchBlock ?flushed (worker demoTask) (height demoTask) = Inl ''flushed''"
    "isTaskFlushedError ?flushed ''flushed''"
    by (simp_all add: demoEnv_def)
  have c2: "fetchBlock ?before (worker demoTask) (height demoTask) = Inr 101"
    "preProcessBlock ?before 101 = Some ''boom''"
    "\<not> isTaskFlushedError ?before ''boom''" "\<not> isBlockUnavailableError ?before ''boom''"
    by (simp_all add: demoHooks_def demoEnv_def)
  have c3: "fetchBlock ?unavailable (worker demoTask) (height demoTask) = Inr 101"
    "preProcessBlock ?unavailable 101 = None"
    "worker_processBlock ?unavailable (worker demoTask) (height demoTask) = Inl ''unavailable''"
    "isBlockUnavailableError ?unavailable ''unavailable''"
    by (simp_all add: demoEnv_def)
  have c4: "fetchBlock ?boom (worker demoTask) (height demoTask) = Inr 101"
    "preProcessBlock ?boom 101 = None"
    "worker_processBlock ?boom (worker demoTask) (height demoTask) = Inl ''boom''"
    "\<not> isTaskFlushedError ?boom ''boom''" "\<not> isBlockUnavailableError ?boom ''boom''"
    by (simp_all add: demoEnv_def)
  have c5: "fetchBlock ?after (worker demoTask) (height demoTask) = Inr 101"
    "preProcessBlock ?after 101 = None"
    "worker_processBlock ?after (worker demoTask) (height demoTask) = Inr demoResponse"
    "postProcessBlock ?after 101
       \<lparr>dynamicDsCreated = dynamicDsCreated demoResponse,
         reindexBlockHeader = reindexBlockHeader demoResponse\<rparr> = Some ''boom''"
    "\<not> isTaskFlushedError ?after ''boom''" "\<not> isBlockUnavailableError ?after ''boom''"
    by (simp_all add: demoHooks_def demoEnv_def)
  have response: "dynamicDsCreated demoResponse = False" "reindexBlockHeader demoResponse = None"
    by (simp_all add: demoResponse_def)
  have r1: "processBlock ?flushed demoPool demoTask = (Returned, [])"
    using task_error_policy [of ?flushed demoTask demoPool] c1 by simp
  have r2: "processBlock ?before demoPool demoTask =
      (Exited 1, [PreProcessBlock 101, LogError 101 ''boom'', ProcessExit 1])"
    using task_error_policy [of ?before demoTask demoPool] c2 task by simp
  have r3: "processBlock ?unavailable demoPool demoTask =
      (Returned, [PreProcessBlock 101, MonitorWrite 2, WorkerProcessBlock 2 101])"
    using task_error_policy [of ?unavailable demoTask demoPool] c3 task by simp
  have r4: "processBlock ?boom demoPool demoTask =
      (Exited 1, [PreProcessBlock 101, MonitorWrite 2, WorkerProcessBlock 2 101,
                  LogError 101 ''boom'', ProcessExit 1])"
    using task_error_policy [of ?boom demoTask demoPool] c4 task by simp
  have r5: "processBlock ?after demoPool demoTask =
      (Exited 1, [PreProcessBlock 101, MonitorWrite 2, WorkerProcessBlock 2 101,
                  PostProcessBlock 101 \<lparr>dynamicDsCreated = False, reindexBlockHeader = None\<rparr>,
                  LogError 101 ''boom'', ProcessExit 1])"
    using task_error_policy [of ?after demoTask demoPool] c5 task response by simp
  from r1 r2 r3 r4 r5 show ?thesis
    by simp
qed

subsection \<open>The choice of the worker\<close>

text \<open>
  What \<^verbatim>\<open>getNextWorkerIndex\<close> returns is the thread identifier of the chosen status
  less one, not its position. In a pool whose workers report the identifiers 2, 3, 4, 5
  and the backlogs 3, 1, 1, 4, the random number \<open>1/2\<close> chooses the second of the two
  least loaded workers, whose identifier is 4, and the index returned is 3: the
  position of the worker with backlog 4.
\<close>

theorem getNextWorkerIndex_counterexample:
  "resolutions (map (getStatus (demoEnv 2 oneHalf (Inr 101) (Inr demoResponse))) (workers demoPool))
     = [\<lparr>threadId = 2, toFetchBlocks = 3\<rparr>, \<lparr>threadId = 3, toFetchBlocks = 1\<rparr>,
        \<lparr>threadId = 4, toFetchBlocks = 1\<rparr>, \<lparr>threadId = 5, toFetchBlocks = 4\<rparr>]
   \<and> getNextWorkerIndex (demoEnv 2 oneHalf (Inr 101) (Inr demoResponse)) demoPool
     = (Inr 3, [GetStatus 0, GetStatus 1, GetStatus 2, GetStatus 3])"
proof -
  have pool: "workers demoPool = [0, 1, 2, 3]"
    by (simp add: demoPool_def)
  have answers: "resolutions (map (getStatus (demoEnv 2 oneHalf (Inr 101) (Inr demoResponse)))
      (workers demoPool)) = demoStatuses 2"
    by (simp add: demo_answers resolutions_map_Inr)
  have statuses: "demoStatuses 2
     = [\<lparr>threadId = 2, toFetchBlocks = 3\<rparr>, \<lparr>threadId = 3, toFetchBlocks = 1\<rparr>,
        \<lparr>threadId = 4, toFetchBlocks = 1\<rparr>, \<lparr>threadId = 5, toFetchBlocks = 4\<rparr>]"
    by (simp add: demoStatuses_def)
  have "getNextWorkerIndex (demoEnv 2 oneHalf (Inr 101) (Inr demoResponse)) demoPool
     = (Inr 3, [GetStatus 0, GetStatus 1, GetStatus 2, GetStatus 3])"
    using demo_threadIds [of 2]
    by (simp add: getNextWorkerIndex_resolved [OF demo_answers] demo_tied demo_mathRandom
        demo_places [unfolded numeral_2_eq_2] at_index_def pool)
  with answers statuses show ?thesis
    by simp
qed

text \<open>
  C4. Let the pool be non-empty, let every worker answer its status, and let the random
  number \<open>r\<close> be a binary64 number of \<open>[0, 1)\<close>. Then \<^verbatim>\<open>getNextWorkerIndex\<close> asks every
  worker of the pool for its status once, in the order of the pool, and returns the
  thread identifier, less one, of a status whose backlog is the minimum of all
  backlogs: with \<open>k\<close> such statuses, the one at place \<^verbatim>\<open>Math.floor(r * k)\<close> among them.
  That place is below \<open>k\<close>. It is the floor of the product as binary64 rounds it, which
  differs from \<open>r * k\<close> by at most its \<open>2 ^ 53\<close>-th part: so the place \<open>j\<close> is taken for
  every \<open>r\<close> with \<open>j \<le> r * k * (1 - 1 / 2 ^ 53)\<close> and \<open>r * k * (1 + 1 / 2 ^ 53) < j + 1\<close>, and
  for no \<open>r\<close> outside \<open>j \<le> r * k * (1 + 1 / 2 ^ 53)\<close> and \<open>r * k * (1 - 1 / 2 ^ 53) < j + 1\<close>:
  each of the \<open>k\<close> statuses on an interval of length \<open>1 / k\<close>, up to that rounding. When
  the worker at every position \<open>i\<close> reports the thread identifier \<open>i + 1\<close>, what is
  returned is the position in the pool of the chosen worker.
\<close>

theorem getNextWorkerIndex_least_loaded:
  assumes pool: "workers s \<noteq> []"
    and answers: "map (getStatus env) (workers s) = map Inr sts"
    and rnd: "inUnitInterval (mathRandom env)"
  shows "\<exists>place i.
           place = floorTimes (mathRandom env) (length (tied sts))
           \<and> place < length (tied sts)
           \<and> i = tied sts ! place
           \<and> i < length (workers s)
           \<and> toFetchBlocks (sts ! i) = Min (set (map toFetchBlocks sts))
           \<and> getNextWorkerIndex env s = (Inr (threadId (sts ! i) - 1), map GetStatus (workers s))
           \<and> ((\<forall>n < length sts. threadId (sts ! n) = int n + 1) \<longrightarrow>
                getNextWorkerIndex env s = (Inr (int i), map GetStatus (workers s)))
           \<and> real place
                \<le> valueOf (mathRandom env) * real (length (tied sts)) * (1 + 1 / 2 ^ 53)
           \<and> valueOf (mathRandom env) * real (length (tied sts)) * (1 - 1 / 2 ^ 53)
                < real place + 1
           \<and> (\<forall>j.
                 real j \<le> valueOf (mathRandom env) * real (length (tied sts)) * (1 - 1 / 2 ^ 53)
                 \<and> valueOf (mathRandom env) * real (length (tied sts)) * (1 + 1 / 2 ^ 53)
                      < real j + 1 \<longrightarrow>
                 place = j)"
proof -
  let ?k = "length (tied sts)"
  let ?place = "floorTimes (mathRandom env) ?k"
  let ?i = "tied sts ! ?place"
  have len: "length sts = length (workers s)"
    using answers by (metis length_map)
  with pool have "sts \<noteq> []" by auto
  then have k: "0 < ?k" using tied_nonempty by auto
  from rnd have "significand (mathRandom env) < 2 ^ 53" "53 \<le> scale (mathRandom env)"
    by (simp_all add: inUnitInterval_def)
  then have place: "?place < ?k"
    using k by (rule floorTimes_less)
  then have mem: "?i \<in> set (tied sts)" by simp
  from tied_member [OF mem] have i: "?i < length sts"
    and least: "toFetchBlocks (sts ! ?i) = Min (set (map toFetchBlocks sts))"
    by auto
  have "at_index (map ((!) sts) (tied sts)) (int ?place) = Some (sts ! ?i)"
    using place by (simp add: at_index_def)
  then have run: "getNextWorkerIndex env s
      = (Inr (threadId (sts ! ?i) - 1), map GetStatus (workers s))"
    by (simp add: getNextWorkerIndex_resolved [OF answers])
  have aligned: "getNextWorkerIndex env s = (Inr (int ?i), map GetStatus (workers s))"
    if "\<forall>n < length sts. threadId (sts ! n) = int n + 1"
    using that i run by simp
  have chosen: "?place = j"
    if "real j \<le> valueOf (mathRandom env) * real ?k * (1 - 1 / 2 ^ 53)
        \<and> valueOf (mathRandom env) * real ?k * (1 + 1 / 2 ^ 53) < real j + 1" for j
  proof (rule floorTimes_eqI)
    show "real j \<le> valueOf (mathRandom env) * real ?k * (1 - 1 / 2 ^ 53)"
      using that by (rule conjunct1)
    show "valueOf (mathRandom env) * real ?k * (1 + 1 / 2 ^ 53) < real j + 1"
      using that by (rule conjunct2)
  qed
  have near: "real ?place \<le> valueOf (mathRandom env) * real ?k * (1 + 1 / 2 ^ 53)"
    "valueOf (mathRandom env) * real ?k * (1 - 1 / 2 ^ 53) < real ?place + 1"
    using floorTimes_bounds [of "mathRandom env" ?k] by blast+
  have inside: "?i < length (workers s)"
    using i len by simp
  show ?thesis
  proof (rule exI [of _ ?place], rule exI [of _ ?i], intro conjI)
    show "?place = floorTimes (mathRandom env) ?k" "?i = tied sts ! ?place"
      by (rule refl)+
    show "?place < ?k" by (rule place)
    show "?i < length (workers s)" by (rule inside)
    show "toFetchBlocks (sts ! ?i) = Min (set (map toFetchBlocks sts))" by (rule least)
    show "getNextWorkerIndex env s = (Inr (threadId (sts ! ?i) - 1), map GetStatus (workers s))"
      by (rule run)
    show "(\<forall>n < length sts. threadId (sts ! n) = int n + 1) \<longrightarrow>
        getNextWorkerIndex env s = (Inr (int ?i), map GetStatus (workers s))"
      using aligned by (rule impI)
    show "real ?place \<le> valueOf (mathRandom env) * real ?k * (1 + 1 / 2 ^ 53)"
      by (rule near(1))
    show "valueOf (mathRandom env) * real ?k * (1 - 1 / 2 ^ 53) < real ?place + 1"
      by (rule near(2))
    show "\<forall>j. real j \<le> valueOf (mathRandom env) * real ?k * (1 - 1 / 2 ^ 53)
             \<and> valueOf (mathRandom env) * real ?k * (1 + 1 / 2 ^ 53) < real j + 1 \<longrightarrow>
             ?place = j"
      using chosen by (intro allI impI)
  qed
qed

text \<open>
  The backlogs 3, 1, 1, 4 with the identifiers 1, 2, 3, 4: the random number \<open>1/4\<close> gives
  position 1 and \<open>3/4\<close> gives position 2.
\<close>

theorem getNextWorkerIndex_least_loaded_witness:
  "getNextWorkerIndex (demoEnv 1 oneQuarter (Inr 101) (Inr demoResponse)) demoPool
     = (Inr 1, [GetStatus 0, GetStatus 1, GetStatus 2, GetStatus 3])
   \<and> getNextWorkerIndex (demoEnv 1 threeQuarters (Inr 101) (Inr demoResponse)) demoPool
     = (Inr 2, [GetStatus 0, GetStatus 1, GetStatus 2, GetStatus 3])
   \<and> map toFetchBlocks (demoStatuses 1) = [3, 1, 1, 4]
   \<and> inUnitInterval oneQuarter \<and> inUnitInterval threeQuarters"
proof -
  have pool: "workers demoPool \<noteq> []" "workers demoPool = [0, 1, 2, 3]"
    by (simp_all add: demoPool_def)
  have ids: "\<forall>n < length (demoStatuses 1). threadId (demoStatuses 1 ! n) = int n + 1"
    by (auto simp: demoStatuses_def nth_Cons')
  have low: "inUnitInterval (mathRandom (demoEnv 1 oneQuarter (Inr 101) (Inr demoResponse)))"
    and high: "inUnitInterval (mathRandom (demoEnv 1 threeQuarters (Inr 101) (Inr demoResponse)))"
    by (simp_all add: demo_mathRandom demo_random)
  have backlogs: "map toFetchBlocks (demoStatuses 1) = [3, 1, 1, 4]"
    by (simp add: demoStatuses_def)
  have places: "floorTimes oneQuarter (length (tied (demoStatuses 1))) = 0"
    "floorTimes threeQuarters (length (tied (demoStatuses 1))) = 1"
    by (simp_all add: demo_tied demo_places [unfolded numeral_2_eq_2])
  from getNextWorkerIndex_least_loaded [OF pool(1) demo_answers low]
  obtain place i where first: "place = floorTimes oneQuarter (length (tied (demoStatuses 1)))"
      "i = tied (demoStatuses 1) ! place"
      "(\<forall>n < length (demoStatuses 1). threadId (demoStatuses 1 ! n) = int n + 1) \<longrightarrow>
         getNextWorkerIndex (demoEnv 1 oneQuarter (Inr 101) (Inr demoResponse)) demoPool
           = (Inr (int i), map GetStatus (workers demoPool))"
    unfolding demo_mathRandom by (elim exE conjE)
  from getNextWorkerIndex_least_loaded [OF pool(1) demo_answers high]
  obtain place' i' where second: "place' = floorTimes threeQuarters (length (tied (demoStatuses 1)))"
      "i' = tied (demoStatuses 1) ! place'"
      "(\<forall>n < length (demoStatuses 1). threadId (demoStatuses 1 ! n) = int n + 1) \<longrightarrow>
         getNextWorkerIndex (demoEnv 1 threeQuarters (Inr 101) (Inr demoResponse)) demoPool
           = (Inr (int i'), map GetStatus (workers demoPool))"
    unfolding demo_mathRandom by (elim exE conjE)
  have "place = 0" "place' = 1"
    using first(1) second(1) by (simp_all only: places)
  with first(2) second(2) have "i = 1" "i' = 2"
    by (simp_all add: demo_tied)
  with first(3) second(3) ids
  have "getNextWorkerIndex (demoEnv 1 oneQuarter (Inr 101) (Inr demoResponse)) demoPool
          = (Inr 1, map GetStatus (workers demoPool))"
    "getNextWorkerIndex (demoEnv 1 threeQuarters (Inr 101) (Inr demoResponse)) demoPool
          = (Inr 2, map GetStatus (workers demoPool))"
    by simp_all
  then show ?thesis
    by (simp add: pool(2) backlogs demo_random)
qed

subsection \<open>Batches\<close>

text \<open>
  C5. Let a non-empty batch of heights be enqueued before shutdown. If the load balancer
  returns an index at which a worker \<open>w\<close> of the pool stands, the call returns; and
  whenever the call returns, then: the status of every worker has been asked once, that
  is, the load balancer has been consulted once; every height of the batch has been put
  on the queue once, in the order of the batch and with one and the same index; and
  every height has been fetched once, on the worker at that index, in the same order.
\<close>

theorem batch_goes_to_one_worker:
  assumes "hs \<noteq> []" and "\<not> isShutdown s"
  shows "(\<forall>idx tr0 w.
            getNextWorkerIndex (env :: ('w, 'e, 'hdr) env) s = (Inr idx, tr0)
            \<and> at_index (workers s) idx = Some w \<longrightarrow>
            (\<exists>tr. enqueueBlocks env s (map Height hs :: 'b item list) latestBufferHeight =
                    (Inr (),
                     s\<lparr>latestBufferedHeight :=
                          (case latestBufferHeight of Some k \<Rightarrow> k | None \<Rightarrow> last hs)\<rparr>,
                     tr)
                 \<and> statusCalls tr = workers s
                 \<and> assignments tr = map (\<lambda>h. (h, idx)) hs
                 \<and> fetches tr = map (\<lambda>h. (w, h)) hs))
       \<and> (\<forall>s' tr.
            enqueueBlocks env s (map Height hs :: 'b item list) latestBufferHeight = (Inr (), s', tr) \<longrightarrow>
            (\<exists>idx w. at_index (workers s) idx = Some w
                 \<and> statusCalls tr = workers s
                 \<and> assignments tr = map (\<lambda>h. (h, idx)) hs
                 \<and> fetches tr = map (\<lambda>h. (w, h)) hs))"
proof -
  have hs: "bypass (map Height hs :: 'b item list) latestBufferHeight = hs"
    using assms(1) by (simp add: bypass_def numbers_map_Height split: option.splits)
  have nxt: "nextBufferedHeight s hs latestBufferHeight =
      (case latestBufferHeight of Some k \<Rightarrow> k | None \<Rightarrow> last hs)"
    using assms(1) by (simp add: nextBufferedHeight_def last_opt_def split: option.splits)
  have found: "\<exists>tr. enqueueBlocks env s (map Height hs :: 'b item list) latestBufferHeight =
                    (Inr (),
                     s\<lparr>latestBufferedHeight :=
                          (case latestBufferHeight of Some k \<Rightarrow> k | None \<Rightarrow> last hs)\<rparr>,
                     tr)
                 \<and> statusCalls tr = workers s
                 \<and> assignments tr = map (\<lambda>h. (h, idx)) hs
                 \<and> fetches tr = map (\<lambda>h. (w, h)) hs"
    if lb: "getNextWorkerIndex env s = (Inr idx, tr0)" and at: "at_index (workers s) idx = Some w"
    for idx tr0 w
  proof -
    have tr0: "tr0 = map GetStatus (workers s)"
      using getNextWorkerIndex_trace [of env s] lb by simp
    let ?put = "concat (map (\<lambda>h. [FetchBlock w h,
        QueuePut \<lparr>height = h, workerIdx = idx, worker = w,
                  bufferedHeight = latestBufferedHeight s\<rparr>]) hs)"
    let ?tr = "LogEnqueueing (first_opt hs) (last_opt hs) (length hs)
        # map GetStatus (workers s) @ ?put @ [EmitBlockQueueSize (queueSize env)]"
    have "list_all isNumber (map Height hs :: 'b item list)"
      by (rule all_numbers_map_Height)
    from enqueueBlocks_numbers [OF this lb, of latestBufferHeight ?put]
    have run: "enqueueBlocks env s (map Height hs :: 'b item list) latestBufferHeight =
        (Inr (),
         s\<lparr>latestBufferedHeight := (case latestBufferHeight of Some k \<Rightarrow> k | None \<Rightarrow> last hs)\<rparr>,
         ?tr)"
      by (simp add: hs nxt tr0 enqueueEach_open [OF assms(2) at])
    have calls: "statusCalls ?tr = workers s"
      by (simp add: statusCalls_append statusCalls_map_GetStatus statusCalls_assigned)
    have puts: "assignments ?tr = map (\<lambda>h. (h, idx)) hs"
      by (simp add: assignments_append assignments_map_GetStatus assignments_assigned)
    have gets: "fetches ?tr = map (\<lambda>h. (w, h)) hs"
      by (simp add: fetches_append fetches_map_GetStatus fetches_assigned)
    from run calls puts gets show ?thesis
      by blast
  qed
  have returned: "\<exists>idx w. at_index (workers s) idx = Some w
                 \<and> statusCalls tr = workers s
                 \<and> assignments tr = map (\<lambda>h. (h, idx)) hs
                 \<and> fetches tr = map (\<lambda>h. (w, h)) hs"
    if run: "enqueueBlocks env s (map Height hs :: 'b item list) latestBufferHeight = (Inr (), s', tr)"
    for s' tr
  proof -
    from enqueueBlocks_returned [OF run] obtain idx tr0 and tr1 :: "('w, 'e, 'hdr) event list"
      where lb: "getNextWorkerIndex env s = (Inr idx, tr0)"
        and each: "enqueueEach s hs idx = (Inr (), tr1)"
      by (auto simp: hs)
    from enqueueEach_worker [OF assms(2,1) each] obtain w
      where at: "at_index (workers s) idx = Some w"
      by blast
    from found [OF lb at] run at show ?thesis
      by auto
  qed
  from found returned show ?thesis
    by blast
qed

theorem batch_goes_to_one_worker_witness:
  "statusCalls (snd (snd (enqueueBlocks (demoEnv 1 oneHalf (Inr 101) (Inr demoResponse)) demoPool
       (map Height [101, 102, 103] :: unit item list) None))) = [0, 1, 2, 3]
   \<and> assignments (snd (snd (enqueueBlocks (demoEnv 1 oneHalf (Inr 101) (Inr demoResponse)) demoPool
       (map Height [101, 102, 103] :: unit item list) None))) = [(101, 2), (102, 2), (103, 2)]
   \<and> fetches (snd (snd (enqueueBlocks (demoEnv 1 oneHalf (Inr 101) (Inr demoResponse)) demoPool
       (map Height [101, 102, 103] :: unit item list) None))) = [(2, 101), (2, 102), (2, 103)]
   \<and> fst (enqueueBlocks (demoEnv 1 oneHalf (Inr 101) (Inr demoResponse)) demoPool
       (map Height [101, 102, 103] :: unit item list) None) = Inr ()"
proof -
  let ?E = "demoEnv 1 oneHalf (Inr 101) (Inr demoResponse)"
  have batch: "[101, 102, 103 :: int] \<noteq> []"
    by simp
  have pool: "workers demoPool = [0, 1, 2, 3]"
    by (simp add: demoPool_def)
  from batch_goes_to_one_worker [OF batch demo_worker(2),
      where ?'b = unit and env = ?E and latestBufferHeight = None]
    demo_balancer [of 101] demo_worker(1)
  have "\<exists>tr. enqueueBlocks ?E demoPool (map Height [101, 102, 103] :: unit item list) None =
            (Inr (), demoPool\<lparr>latestBufferedHeight := 103\<rparr>, tr)
          \<and> statusCalls tr = workers demoPool
          \<and> assignments tr = map (\<lambda>h. (h, 2)) [101, 102, 103]
          \<and> fetches tr = map (\<lambda>h. (2, h)) [101, 102, 103]"
    by fastforce
  with pool show ?thesis
    by auto
qed

subsection \<open>The empty batch\<close>

text \<open>
  The bypass tests the truth value of the latest height, and \<open>0\<close> is falsy: an empty
  batch with the latest height \<open>0\<close> returns without having put anything on the queue.
\<close>

theorem empty_batch_zero_counterexample:
  "enqueueBlocks (demoEnv 1 oneHalf (Inr 101) (Inr demoResponse)) demoPool ([] :: unit item list) (Some 0)
     = (Inr (), demoPool\<lparr>latestBufferedHeight := 0\<rparr>,
        [LogEnqueueing None None 0, GetStatus 0, GetStatus 1, GetStatus 2, GetStatus 3,
         EmitBlockQueueSize 0])
   \<and> assignments (snd (snd (enqueueBlocks (demoEnv 1 oneHalf (Inr 101) (Inr demoResponse)) demoPool
        ([] :: unit item list) (Some 0)))) = []"
proof -
  have "enqueueBlocks (demoEnv 1 oneHalf (Inr 101) (Inr demoResponse)) demoPool
          ([] :: unit item list) (Some 0)
     = (Inr (), demoPool\<lparr>latestBufferedHeight := 0\<rparr>,
        [LogEnqueueing None None 0, GetStatus 0, GetStatus 1, GetStatus 2, GetStatus 3,
         EmitBlockQueueSize 0])"
    by (simp add: enqueueBlocks_def demo_balancer bypass_def first_opt_def last_opt_def
        set_latestBufferedHeight_def nextBufferedHeight_def demo_queueSize)
  then show ?thesis
    by simp
qed

text \<open>
  C6. Let the empty batch be enqueued with a latest height \<open>k\<close> that is not \<open>0\<close>, before
  shutdown. If the load balancer returns an index at which a worker \<open>w\<close> of the pool
  stands, the call returns; and whenever the call returns, exactly one unit of work has
  been assigned: height \<open>k\<close> has been fetched on the worker at the index returned and its
  task has been put on the queue, and nothing else has.
\<close>

theorem empty_batch_bypass:
  assumes "k \<noteq> 0" and "\<not> isShutdown s"
  shows "(\<forall>idx tr0 w.
            getNextWorkerIndex (env :: ('w, 'e, 'hdr) env) s = (Inr idx, tr0)
            \<and> at_index (workers s) idx = Some w \<longrightarrow>
            enqueueBlocks env s ([] :: 'b item list) (Some k) =
              (Inr (), s\<lparr>latestBufferedHeight := k\<rparr>,
               LogEnqueueing (Some k) (Some k) 1 # tr0
                 @ [FetchBlock w k,
                    QueuePut \<lparr>height = k, workerIdx = idx, worker = w,
                              bufferedHeight = latestBufferedHeight s\<rparr>,
                    EmitBlockQueueSize (queueSize env)])
            \<and> assignments (snd (snd (enqueueBlocks env s ([] :: 'b item list) (Some k)))) = [(k, idx)]
            \<and> fetches (snd (snd (enqueueBlocks env s ([] :: 'b item list) (Some k)))) = [(w, k)])
       \<and> (\<forall>s' tr.
            enqueueBlocks env s ([] :: 'b item list) (Some k) = (Inr (), s', tr) \<longrightarrow>
            (\<exists>idx w. at_index (workers s) idx = Some w
               \<and> assignments tr = [(k, idx)] \<and> fetches tr = [(w, k)]))"
proof -
  have hs: "bypass ([] :: 'b item list) (Some k) = [k]"
    using assms(1) by (simp add: bypass_def)
  have found: "enqueueBlocks env s ([] :: 'b item list) (Some k) =
              (Inr (), s\<lparr>latestBufferedHeight := k\<rparr>,
               LogEnqueueing (Some k) (Some k) 1 # tr0
                 @ [FetchBlock w k,
                    QueuePut \<lparr>height = k, workerIdx = idx, worker = w,
                              bufferedHeight = latestBufferedHeight s\<rparr>,
                    EmitBlockQueueSize (queueSize env)])
            \<and> assignments (snd (snd (enqueueBlocks env s ([] :: 'b item list) (Some k)))) = [(k, idx)]
            \<and> fetches (snd (snd (enqueueBlocks env s ([] :: 'b item list) (Some k)))) = [(w, k)]"
    if lb: "getNextWorkerIndex env s = (Inr idx, tr0)" and at: "at_index (workers s) idx = Some w"
    for idx tr0 w
  proof -
    have tr0: "tr0 = map GetStatus (workers s)"
      using getNextWorkerIndex_trace [of env s] lb by simp
    have each: "enqueueEach s [k] idx =
        (Inr (), [FetchBlock w k, QueuePut \<lparr>height = k, workerIdx = idx, worker = w,
                                            bufferedHeight = latestBufferedHeight s\<rparr>])"
      using enqueueEach_open [OF assms(2) at, of "[k]"] by simp
    have run: "enqueueBlocks env s ([] :: 'b item list) (Some k) =
             (Inr (), s\<lparr>latestBufferedHeight := k\<rparr>,
              LogEnqueueing (Some k) (Some k) 1 # tr0
                @ [FetchBlock w k,
                   QueuePut \<lparr>height = k, workerIdx = idx, worker = w,
                             bufferedHeight = latestBufferedHeight s\<rparr>,
                   EmitBlockQueueSize (queueSize env)])"
      using enqueueBlocks_numbers [of "[] :: 'b item list" env s idx tr0 "Some k", unfolded hs,
          OF _ lb each]
      by (simp add: nextBufferedHeight_def first_opt_def last_opt_def)
    show ?thesis
      by (simp add: run tr0 assignments_append assignments_map_GetStatus fetches_append
          fetches_map_GetStatus)
  qed
  have returned: "\<exists>idx w. at_index (workers s) idx = Some w
               \<and> assignments tr = [(k, idx)] \<and> fetches tr = [(w, k)]"
    if run: "enqueueBlocks env s ([] :: 'b item list) (Some k) = (Inr (), s', tr)" for s' tr
  proof -
    from enqueueBlocks_returned [OF run] obtain idx tr0 and tr1 :: "('w, 'e, 'hdr) event list"
      where lb: "getNextWorkerIndex env s = (Inr idx, tr0)"
        and each: "enqueueEach s [k] idx = (Inr (), tr1)"
      by (auto simp: hs)
    have "[k] \<noteq> []"
      by simp
    from enqueueEach_worker [OF assms(2) this each] obtain w
      where at: "at_index (workers s) idx = Some w"
      by blast
    from found [OF lb at] run at show ?thesis
      by auto
  qed
  from found returned show ?thesis
    by blast
qed

theorem empty_batch_bypass_witness:
  "(42 :: int) \<noteq> 0
   \<and> assignments (snd (snd (enqueueBlocks (demoEnv 1 oneHalf (Inr 42) (Inr demoResponse)) demoPool
        ([] :: unit item list) (Some 42)))) = [(42, 2)]
   \<and> fetches (snd (snd (enqueueBlocks (demoEnv 1 oneHalf (Inr 42) (Inr demoResponse)) demoPool
        ([] :: unit item list) (Some 42)))) = [(2, 42)]
   \<and> fst (snd (enqueueBlocks (demoEnv 1 oneHalf (Inr 42) (Inr demoResponse)) demoPool
        ([] :: unit item list) (Some 42))) = demoPool\<lparr>latestBufferedHeight := 42\<rparr>"
proof -
  let ?E = "demoEnv 1 oneHalf (Inr 42) (Inr demoResponse)"
  have k: "(42 :: int) \<noteq> 0"
    by simp
  from empty_batch_bypass [OF k demo_worker(2), where ?'b = unit and env = ?E]
    demo_balancer [of 42] demo_worker(1)
  have "enqueueBlocks ?E demoPool ([] :: unit item list) (Some 42) =
          (Inr (), demoPool\<lparr>latestBufferedHeight := 42\<rparr>,
           LogEnqueueing (Some 42) (Some 42) 1 # [GetStatus 0, GetStatus 1, GetStatus 2, GetStatus 3]
             @ [FetchBlock 2 42,
                QueuePut \<lparr>height = 42, workerIdx = 2, worker = 2,
                          bufferedHeight = latestBufferedHeight demoPool\<rparr>,
                EmitBlockQueueSize (queueSize ?E)])
        \<and> assignments (snd (snd (enqueueBlocks ?E demoPool ([] :: unit item list) (Some 42)))) = [(42, 2)]
        \<and> fetches (snd (snd (enqueueBlocks ?E demoPool ([] :: unit item list) (Some 42)))) = [(2, 42)]"
    by fastforce
  then show ?thesis
    by simp
qed

subsection \<open>The counter\<close>

text \<open>
  C7. When \<^verbatim>\<open>enqueueBlocks\<close> returns, the counter is the latest height if one was given
  (also when it is \<open>0\<close>); otherwise it is the last height of the batch if the batch is not
  empty; otherwise it is what it was before the call.
\<close>

theorem enqueueBlocks_counter:
  assumes "enqueueBlocks env s heights latestBufferHeight = (Inr (), s', tr)"
  shows "(\<forall>k. latestBufferHeight = Some k \<longrightarrow> latestBufferedHeight s' = k)
       \<and> (latestBufferHeight = None \<and> heights \<noteq> [] \<longrightarrow> Height (latestBufferedHeight s') = last heights)
       \<and> (latestBufferHeight = None \<and> heights = [] \<longrightarrow> latestBufferedHeight s' = latestBufferedHeight s)"
proof -
  from assms have num: "list_all isNumber heights"
    by (auto simp: enqueueBlocks_def split: if_splits)
  from assms num have s': "s' = s\<lparr>latestBufferedHeight :=
      nextBufferedHeight s (bypass heights latestBufferHeight) latestBufferHeight\<rparr>"
    by (auto simp: enqueueBlocks_def Let_def set_latestBufferedHeight_def
        split: prod.splits sum.splits)
  have last_num: "heights \<noteq> [] \<Longrightarrow> Height (last (numbers heights)) = last heights"
    using numbers_all [OF num] by (metis last_map map_is_Nil_conv)
  have nonempty: "heights \<noteq> [] \<Longrightarrow> numbers heights \<noteq> []"
    using numbers_all [OF num] by (metis map_is_Nil_conv)
  show ?thesis
    using last_num nonempty
    by (auto simp: s' nextBufferedHeight_def bypass_def last_opt_def)
qed

text \<open>The three cases, on the pool whose counter stands at 100.\<close>

theorem enqueueBlocks_counter_witness:
  "fst (enqueueBlocks (demoEnv 1 oneHalf (Inr 101) (Inr demoResponse)) demoPool
       [Height 101, Height 102 :: unit item] None) = Inr ()
   \<and> Height (latestBufferedHeight (fst (snd (enqueueBlocks
         (demoEnv 1 oneHalf (Inr 101) (Inr demoResponse)) demoPool
         [Height 101, Height 102 :: unit item] None)))) = last [Height 101, Height 102 :: unit item]
   \<and> fst (enqueueBlocks (demoEnv 1 oneHalf (Inr 101) (Inr demoResponse)) demoPool
       [Height 101, Height 102 :: unit item] (Some 110)) = Inr ()
   \<and> latestBufferedHeight (fst (snd (enqueueBlocks (demoEnv 1 oneHalf (Inr 101) (Inr demoResponse))
       demoPool [Height 101, Height 102 :: unit item] (Some 110)))) = 110
   \<and> fst (enqueueBlocks (demoEnv 1 oneHalf (Inr 101) (Inr demoResponse)) demoPool
       ([] :: unit item list) None) = Inr ()
   \<and> latestBufferedHeight (fst (snd (enqueueBlocks (demoEnv 1 oneHalf (Inr 101) (Inr demoResponse))
       demoPool ([] :: unit item list) None))) = latestBufferedHeight demoPool"
proof -
  let ?E = "demoEnv 1 oneHalf (Inr 101) (Inr demoResponse)"
  have batch: "list_all isNumber [Height 101, Height 102 :: unit item]"
    and empty: "list_all isNumber ([] :: unit item list)"
    by simp_all
  obtain s1 tr1 where run1:
    "enqueueBlocks ?E demoPool [Height 101, Height 102 :: unit item] None = (Inr (), s1, tr1)"
    using enqueueBlocks_returns [OF batch demo_worker(2) demo_balancer [of 101] demo_worker(1)]
    by blast
  obtain s2 tr2 where run2:
    "enqueueBlocks ?E demoPool [Height 101, Height 102 :: unit item] (Some 110) = (Inr (), s2, tr2)"
    using enqueueBlocks_returns [OF batch demo_worker(2) demo_balancer [of 101] demo_worker(1)]
    by blast
  obtain s3 tr3 where run3:
    "enqueueBlocks ?E demoPool ([] :: unit item list) None = (Inr (), s3, tr3)"
    using enqueueBlocks_returns [OF empty demo_worker(2) demo_balancer [of 101] demo_worker(1)]
    by blast
  from enqueueBlocks_counter [OF run1] enqueueBlocks_counter [OF run2]
    enqueueBlocks_counter [OF run3]
  show ?thesis
    by (simp add: run1 run2 run3)
qed

subsection \<open>Payloads\<close>

text \<open>
  C8. A batch with an element that is not a number fails the first assertion of
  \<^verbatim>\<open>enqueueBlocks\<close>: the call ends with that error, the dispatcher is as it was, and
  nothing has been done, so no work has been assigned.
\<close>

theorem enqueueBlocks_rejects_payloads:
  assumes "\<exists>x \<in> set heights. \<not> isNumber x"
  shows "enqueueBlocks env s heights latestBufferHeight =
           (Inl (AssertionError OnlyNumbersSupported), s, [])"
  using assms by (auto simp: enqueueBlocks_def list_all_iff)

theorem enqueueBlocks_rejects_payloads_witness:
  "\<not> isNumber (Block ''payload'' :: string item)
   \<and> enqueueBlocks (demoEnv 1 oneHalf (Inr 101) (Inr demoResponse)) demoPool
        [Height 101, Block ''payload''] (Some 102)
      = (Inl (AssertionError OnlyNumbersSupported), demoPool, [])"
  using enqueueBlocks_rejects_payloads
    [of "[Height 101, Block ''payload'']" "demoEnv 1 oneHalf (Inr 101) (Inr demoResponse)"
      demoPool "Some 102"]
  by simp

subsection \<open>The capacity of the queue\<close>

text \<open>
  The capacity is a product of binary64 numbers, so it is rounded where the exact
  product has more than 53 bits: for \<open>2 ^ 53 - 1\<close> workers and the batch size 3 the queue
  is built with capacity 54043195528445944, while \<open>w * b * 2\<close> is 54043195528445946.
\<close>

theorem initAutoQueue_capacity_counterexample:
  "(initAutoQueue (Some 9007199254740991) 3 None None :: unit failure + autoQueue) =
       Inr \<lparr>capacity = Finite 54043195528445944, concurrency = 1, taskTimeoutSec = None,
            queueName = None\<rparr>
   \<and> (9007199254740991 :: int) * 3 * 2 = 54043195528445946"
  by (simp add: initAutoQueue_def binary64_def round53_def unit53.simps)

text \<open>
  C9. For a worker count \<open>w \<ge> 1\<close> and a batch size \<open>b\<close> the queue is built with the
  processing concurrency \<open>1\<close> and with the capacity \<open>(w * b) * 2\<close> as binary64 computes it,
  which is exactly \<open>w * b * 2\<close> whenever that number is at most \<open>2 ^ 53\<close> in absolute
  value; for a worker count that is undefined, zero or negative the assertion fails and
  no queue is built.
\<close>

theorem initAutoQueue_capacity:
  "(1 \<le> w \<and> \<bar>w * b * 2\<bar> \<le> 2 ^ 53 \<longrightarrow>
      (initAutoQueue (Some w) b timeout nm :: 'e failure + autoQueue) =
        Inr \<lparr>capacity = Finite (w * b * 2), concurrency = 1, taskTimeoutSec = timeout,
             queueName = nm\<rparr>)
   \<and> (1 \<le> w \<longrightarrow>
      (initAutoQueue (Some w) b timeout nm :: 'e failure + autoQueue) =
        Inr \<lparr>capacity = js_times (js_times (Finite w) (Finite b)) (Finite 2), concurrency = 1,
             taskTimeoutSec = timeout, queueName = nm\<rparr>)
   \<and> (w \<le> 0 \<longrightarrow> (initAutoQueue (Some w) b timeout nm :: 'e failure + autoQueue) =
       Inl (AssertionError WorkersMustBePositive))
   \<and> (initAutoQueue None b timeout nm :: 'e failure + autoQueue) =
       Inl (AssertionError WorkersMustBePositive)"
proof -
  have exact: "js_times (js_times (Finite w) (Finite b)) (Finite 2) = Finite (w * b * 2)"
    if bound: "\<bar>w * b * 2\<bar> \<le> 2 ^ 53"
  proof -
    have "\<bar>w * b\<bar> \<le> \<bar>w * b * 2\<bar>"
      by (simp add: abs_mult)
    from this bound have "\<bar>w * b\<bar> \<le> 2 ^ 53"
      by (rule order_trans)
    then have "binary64 (w * b) = Finite (w * b)"
      by (rule binary64_exact)
    moreover have "binary64 (w * b * 2) = Finite (w * b * 2)"
      using bound by (rule binary64_exact)
    ultimately show ?thesis
      by simp
  qed
  then show ?thesis
    by (simp add: initAutoQueue_def)
qed

theorem initAutoQueue_capacity_witness:
  "(initAutoQueue (Some 4) 25 (Some 900) (Some ''Worker'') :: unit failure + autoQueue) =
       Inr \<lparr>capacity = Finite 200, concurrency = 1, taskTimeoutSec = Some 900,
            queueName = Some ''Worker''\<rparr>
   \<and> (initAutoQueue (Some 0) 25 (Some 900) (Some ''Worker'') :: unit failure + autoQueue) =
       Inl (AssertionError WorkersMustBePositive)
   \<and> (initAutoQueue (Some (- 2)) 25 (Some 900) (Some ''Worker'') :: unit failure + autoQueue) =
       Inl (AssertionError WorkersMustBePositive)"
  using initAutoQueue_capacity [where ?'e = unit, of 4 25 "Some 900" "Some ''Worker''"]
    initAutoQueue_capacity [where ?'e = unit, of 0 25 "Some 900" "Some ''Worker''"]
    initAutoQueue_capacity [where ?'e = unit, of "- 2" 25 "Some 900" "Some ''Worker''"]
  by simp

subsection \<open>The latest height 0\<close>

text \<open>
  C10. An empty batch with the latest height \<open>0\<close> assigns no unit of work: whatever the
  load balancer answers, nothing is fetched and nothing is put on the queue, \<open>0\<close> being
  taken for an absent height by the bypass. Yet, when the load balancer has answered,
  the call returns with the counter set to \<open>0\<close>; and in that state every task whose token
  is positive is stale: once its fetch has delivered, it is discarded.
\<close>

theorem zero_height_not_bypassed:
  "assignments (snd (snd (enqueueBlocks env s ([] :: 'b item list) (Some 0)))) = []
   \<and> fetches (snd (snd (enqueueBlocks env s ([] :: 'b item list) (Some 0)))) = []
   \<and> (\<forall>idx tr0. getNextWorkerIndex env s = (Inr idx, tr0) \<longrightarrow>
          enqueueBlocks env s ([] :: 'b item list) (Some 0) =
            (Inr (), s\<lparr>latestBufferedHeight := 0\<rparr>,
             LogEnqueueing None None 0 # tr0 @ [EmitBlockQueueSize (queueSize env)])
          \<and> (\<forall>t header.
                0 < bufferedHeight t \<and> fetchBlock env (worker t) (height t) = Inr header \<longrightarrow>
                processBlock env (s\<lparr>latestBufferedHeight := 0\<rparr>) t =
                  (Returned, [LogDebugQueueReset])))"
proof -
  have hs: "bypass ([] :: 'b item list) (Some 0) = []"
    by (simp add: bypass_def)
  have tr: "snd (snd (enqueueBlocks env s ([] :: 'b item list) (Some 0))) =
      (case fst (getNextWorkerIndex env s) of
         Inl f \<Rightarrow> LogEnqueueing None None 0 # map GetStatus (workers s)
       | Inr idx \<Rightarrow> LogEnqueueing None None 0 # map GetStatus (workers s)
                      @ [EmitBlockQueueSize (queueSize env)])"
    using getNextWorkerIndex_trace [of env s]
    by (cases "getNextWorkerIndex env s")
      (auto simp: enqueueBlocks_def hs first_opt_def last_opt_def set_latestBufferedHeight_def
        split: sum.splits)
  have none: "assignments (snd (snd (enqueueBlocks env s ([] :: 'b item list) (Some 0)))) = []"
    by (simp add: tr assignments_append assignments_map_GetStatus split: sum.splits)
  have nofetch: "fetches (snd (snd (enqueueBlocks env s ([] :: 'b item list) (Some 0)))) = []"
    by (simp add: tr fetches_append fetches_map_GetStatus split: sum.splits)
  have run: "enqueueBlocks env s ([] :: 'b item list) (Some 0) =
      (Inr (), s\<lparr>latestBufferedHeight := 0\<rparr>,
       LogEnqueueing None None 0 # tr0 @ [EmitBlockQueueSize (queueSize env)])"
    if "getNextWorkerIndex env s = (Inr idx, tr0)" for idx tr0
    using enqueueBlocks_numbers [of "[] :: 'b item list" env s idx tr0 "Some 0" "[]"] that
    by (simp add: hs nextBufferedHeight_def first_opt_def last_opt_def)
  have stale: "processBlock env (s\<lparr>latestBufferedHeight := 0\<rparr>) t = (Returned, [LogDebugQueueReset])"
    if "0 < bufferedHeight t" "fetchBlock env (worker t) (height t) = Inr header" for t header
    using that by (simp add: processBlock_def tryBlock_def)
  show ?thesis
    using none nofetch run stale by blast
qed

text \<open>The task of height 101, assigned at 100, after the empty batch with latest height 0.\<close>

theorem zero_height_not_bypassed_witness:
  "assignments (snd (snd (enqueueBlocks (demoEnv 1 oneHalf (Inr 101) (Inr demoResponse)) demoPool
        ([] :: unit item list) (Some 0)))) = []
   \<and> latestBufferedHeight (fst (snd (enqueueBlocks (demoEnv 1 oneHalf (Inr 101) (Inr demoResponse))
        demoPool ([] :: unit item list) (Some 0)))) = 0
   \<and> 0 < bufferedHeight demoTask
   \<and> processBlock (demoEnv 1 oneHalf (Inr 101) (Inr demoResponse))
        (fst (snd (enqueueBlocks (demoEnv 1 oneHalf (Inr 101) (Inr demoResponse)) demoPool
           ([] :: unit item list) (Some 0)))) demoTask = (Returned, [LogDebugQueueReset])"
proof -
  let ?E = "demoEnv 1 oneHalf (Inr 101) (Inr demoResponse)"
  have token: "0 < bufferedHeight demoTask"
    by (simp add: demoTask_def)
  have fetched: "fetchBlock ?E (worker demoTask) (height demoTask) = Inr 101"
    by (simp add: demoEnv_def)
  from zero_height_not_bypassed [of ?E demoPool, where ?'b = unit] demo_balancer [of 101] token fetched
  show ?thesis
    by simp
qed

end
